theory Spec2Isabelle
  imports Complex_Main
begin

section \<open>JavaScript numbers\<close>

text \<open>
  The analyser computes with JavaScript numbers, which are IEEE 754 doubles. A finite
  double is the real number it stands for; the two infinities and \<open>NaN\<close> are values of
  their own. An arithmetic operation on finite doubles returns the exact result rounded
  to a double (\<open>fl\<close>): to the nearest double, a tie going to the even one, to zero when
  the result is too small, and to an infinity when it is too large. The sign of zero is
  not modelled: no comparison of the source reads it, and the divisors of the source are
  a product of square roots and \<open>Math.PI\<close>.
\<close>

datatype jsnum = Num real | PosInf | NegInf | NaN

text \<open>The nearest integer, a tie going to the even one.\<close>

definition roundHalfEven :: "real \<Rightarrow> int" where
  "roundHalfEven y =
     (let f = \<lfloor>y\<rfloor>; d = y - of_int f
      in if d < 1 / 2 then f
         else if 1 / 2 < d then f + 1
         else if even f then f else f + 1)"

text \<open>
  The doubles around \<open>x\<close> are the multiples of \<open>2 powi e\<close>, with 53 significant bits:
  \<open>e\<close> is 52 below the binary exponent of \<open>x\<close>, and \<open>- 1074\<close> throughout the subnormal
  range, below \<open>2 powi (- 1022)\<close>.
\<close>

definition quantumExponent :: "real \<Rightarrow> int" where
  "quantumExponent x =
     (if \<bar>x\<bar> < 2 powi (- 1022) then - 1074 else \<lfloor>log 2 \<bar>x\<bar>\<rfloor> - 52)"

definition nearestMultiple :: "real \<Rightarrow> int \<Rightarrow> real" where
  "nearestMultiple x e = of_int (roundHalfEven (x / 2 powi e)) * 2 powi e"

text \<open>Rounding to a double; a result of magnitude \<open>2 powi 1024\<close> or more overflows.\<close>

definition fl :: "real \<Rightarrow> jsnum" where
  "fl x =
     (let r = nearestMultiple x (quantumExponent x)
      in if 2 powi 1024 \<le> \<bar>r\<bar> then (if 0 < x then PosInf else NegInf) else Num r)"

text \<open>The operator \<open><\<close> of JavaScript: a comparison with \<open>NaN\<close> is false.\<close>

fun js_lt :: "jsnum \<Rightarrow> jsnum \<Rightarrow> bool" where
  "js_lt NaN b = False"
| "js_lt a NaN = False"
| "js_lt (Num a) (Num b) = (a < b)"
| "js_lt (Num a) PosInf = True"
| "js_lt (Num a) NegInf = False"
| "js_lt PosInf b = False"
| "js_lt NegInf NegInf = False"
| "js_lt NegInf b = True"

text \<open>The operator \<open>>\<close> of JavaScript: \<open>a > b\<close> is \<open>b < a\<close>.\<close>

definition js_gt :: "jsnum \<Rightarrow> jsnum \<Rightarrow> bool" where
  "js_gt a b = js_lt b a"

text \<open>
  \<open>Math.max\<close> and \<open>Math.min\<close> of two arguments: \<open>NaN\<close> as soon as one argument is \<open>NaN\<close>.
\<close>

fun js_max :: "jsnum \<Rightarrow> jsnum \<Rightarrow> jsnum" where
  "js_max NaN b = NaN"
| "js_max a NaN = NaN"
| "js_max PosInf b = PosInf"
| "js_max a PosInf = PosInf"
| "js_max NegInf b = b"
| "js_max a NegInf = a"
| "js_max (Num a) (Num b) = Num (max a b)"

fun js_min :: "jsnum \<Rightarrow> jsnum \<Rightarrow> jsnum" where
  "js_min NaN b = NaN"
| "js_min a NaN = NaN"
| "js_min NegInf b = NegInf"
| "js_min a NegInf = NegInf"
| "js_min PosInf b = b"
| "js_min a PosInf = a"
| "js_min (Num a) (Num b) = Num (min a b)"

text \<open>The operators \<open>+\<close>, \<open>-\<close>, \<open>*\<close> and \<open>/\<close>.\<close>

fun js_add :: "jsnum \<Rightarrow> jsnum \<Rightarrow> jsnum" where
  "js_add NaN b = NaN"
| "js_add a NaN = NaN"
| "js_add PosInf NegInf = NaN"
| "js_add NegInf PosInf = NaN"
| "js_add PosInf b = PosInf"
| "js_add a PosInf = PosInf"
| "js_add NegInf b = NegInf"
| "js_add a NegInf = NegInf"
| "js_add (Num x) (Num y) = fl (x + y)"

fun js_sub :: "jsnum \<Rightarrow> jsnum \<Rightarrow> jsnum" where
  "js_sub NaN b = NaN"
| "js_sub a NaN = NaN"
| "js_sub PosInf PosInf = NaN"
| "js_sub NegInf NegInf = NaN"
| "js_sub PosInf b = PosInf"
| "js_sub a PosInf = NegInf"
| "js_sub NegInf b = NegInf"
| "js_sub a NegInf = PosInf"
| "js_sub (Num x) (Num y) = fl (x - y)"

fun js_mul :: "jsnum \<Rightarrow> jsnum \<Rightarrow> jsnum" where
  "js_mul NaN b = NaN"
| "js_mul a NaN = NaN"
| "js_mul PosInf PosInf = PosInf"
| "js_mul PosInf NegInf = NegInf"
| "js_mul NegInf PosInf = NegInf"
| "js_mul NegInf NegInf = PosInf"
| "js_mul PosInf (Num y) = (if y = 0 then NaN else if 0 < y then PosInf else NegInf)"
| "js_mul NegInf (Num y) = (if y = 0 then NaN else if 0 < y then NegInf else PosInf)"
| "js_mul (Num x) PosInf = (if x = 0 then NaN else if 0 < x then PosInf else NegInf)"
| "js_mul (Num x) NegInf = (if x = 0 then NaN else if 0 < x then NegInf else PosInf)"
| "js_mul (Num x) (Num y) = fl (x * y)"

fun js_div :: "jsnum \<Rightarrow> jsnum \<Rightarrow> jsnum" where
  "js_div NaN b = NaN"
| "js_div a NaN = NaN"
| "js_div PosInf PosInf = NaN"
| "js_div PosInf NegInf = NaN"
| "js_div NegInf PosInf = NaN"
| "js_div NegInf NegInf = NaN"
| "js_div PosInf (Num y) = (if 0 \<le> y then PosInf else NegInf)"
| "js_div NegInf (Num y) = (if 0 \<le> y then NegInf else PosInf)"
| "js_div (Num x) PosInf = Num 0"
| "js_div (Num x) NegInf = Num 0"
| "js_div (Num x) (Num y) =
     (if y \<noteq> 0 then fl (x / y)
      else if x = 0 then NaN
      else if 0 < x then PosInf else NegInf)"

text \<open>\<open>Math.sqrt\<close>, which IEEE 754 rounds correctly.\<close>

fun js_sqrt :: "jsnum \<Rightarrow> jsnum" where
  "js_sqrt (Num v) = (if v < 0 then NaN else fl (sqrt v))"
| "js_sqrt PosInf = PosInf"
| "js_sqrt NegInf = NaN"
| "js_sqrt NaN = NaN"

text \<open>
  \<open>Math.acos\<close>: \<open>NaN\<close> outside \<open>[-1, 1]\<close>. The language leaves its accuracy to the
  implementation; it is taken to return the double nearest to the arc cosine.
\<close>

fun js_acos :: "jsnum \<Rightarrow> jsnum" where
  "js_acos (Num v) = (if - 1 \<le> v \<and> v \<le> 1 then fl (arccos v) else NaN)"
| "js_acos a = NaN"

text \<open>\<open>Math.PI\<close>, the double nearest to \<open>\<pi>\<close>.\<close>

definition Math_PI :: jsnum where
  "Math_PI = fl pi"

text \<open>
  \<open>Math.round\<close>: the nearest integer, a half rounding up; it is exact, and keeps the
  infinities and \<open>NaN\<close>.
\<close>

fun js_round :: "jsnum \<Rightarrow> jsnum" where
  "js_round (Num d) = Num (of_int \<lfloor>d + 1 / 2\<rfloor>)"
| "js_round a = a"

section \<open>The angle at a joint (\<open>utils/CalculateAngle.ts\<close>)\<close>

text \<open>A \<open>number[]\<close> holding the two coordinates of a point, both finite doubles.\<close>

type_synonym point = "real \<times> real"

text \<open>
  \<open>calculateAngle\<close>, operation by operation. The square \<open>v ** 2\<close> is the product of \<open>v\<close>
  with itself.
\<close>

definition calculateAngle :: "point \<Rightarrow> point \<Rightarrow> point \<Rightarrow> jsnum" where
  "calculateAngle a b c =
     (let vectorBA = (js_sub (Num (fst a)) (Num (fst b)), js_sub (Num (snd a)) (Num (snd b)));
          vectorBC = (js_sub (Num (fst c)) (Num (fst b)), js_sub (Num (snd c)) (Num (snd b)));
          dotProduct = js_add (js_mul (fst vectorBA) (fst vectorBC))
                              (js_mul (snd vectorBA) (snd vectorBC));
          magnitudeBA = js_sqrt (js_add (js_mul (fst vectorBA) (fst vectorBA))
                                        (js_mul (snd vectorBA) (snd vectorBA)));
          magnitudeBC = js_sqrt (js_add (js_mul (fst vectorBC) (fst vectorBC))
                                        (js_mul (snd vectorBC) (snd vectorBC)));
          cosTheta = js_div dotProduct (js_mul magnitudeBA magnitudeBC);
          clampedCosTheta = js_max (Num (- 1)) (js_min (Num 1) cosTheta);
          angleInRadians = js_acos clampedCosTheta;
          angleInDegrees = js_div (js_mul angleInRadians (Num 180)) Math_PI
      in js_round (js_sub (Num 180) angleInDegrees))"

text \<open>
  The specification's reading of the result: \<open>\<theta>\<close> is the interior angle at the vertex
  \<open>b\<close> between the rays to \<open>a\<close> and to \<open>c\<close>, in radians, when it lies between \<open>0\<close> and
  \<open>\<pi>\<close> and the scalar product of the two rays is the product of their lengths and of
  \<open>cos \<theta>\<close>.
\<close>

definition interiorAngle :: "point \<Rightarrow> point \<Rightarrow> point \<Rightarrow> real \<Rightarrow> bool" where
  "interiorAngle a b c \<theta> =
     (0 \<le> \<theta> \<and> \<theta> \<le> pi \<and>
      (fst a - fst b) * (fst c - fst b) + (snd a - snd b) * (snd c - snd b) =
      sqrt ((fst a - fst b)\<^sup>2 + (snd a - snd b)\<^sup>2) *
      sqrt ((fst c - fst b)\<^sup>2 + (snd c - snd b)\<^sup>2) * cos \<theta>)"

text \<open>The exterior angle in whole degrees that the specification gives for \<open>\<theta>\<close>.\<close>

definition exteriorDegrees :: "real \<Rightarrow> int" where
  "exteriorDegrees \<theta> = round (180 - \<theta> * 180 / pi)"

section \<open>The state of the squat analyser (\<open>FormAnalyzer\<close>)\<close>

text \<open>
  A landmark of the pose detector, with its \<open>x\<close> and \<open>y\<close> coordinates (finite numbers).
  A frame is the array of landmarks; a slot that holds no landmark is \<open>None\<close>.
\<close>

record landmark =
  lm_x :: real
  lm_y :: real

type_synonym landmarks = "landmark option list"

text \<open>The object held by the reference \<open>squatState\<close>.\<close>

record squat_state =
  descending :: bool
  minKneeAngle :: jsnum
  minHipAngle :: jsnum
  maxKneeForward :: jsnum
  depthWarningGiven :: bool
  backWarningGiven :: bool
  toeWarningGiven :: bool
  lastWarningTime :: int
  maxKneeAngle :: jsnum
  maxHipAngle :: jsnum
  maxHeelAngle :: jsnum
  minHipAnkleDiff :: jsnum
  angleDisplayTimer :: "nat option"

text \<open>The React state \<open>currentAngles\<close>.\<close>

record current_angles =
  cur_kneeAngle :: jsnum
  cur_hipAngle :: jsnum
  cur_heelAngle :: jsnum
  cur_minKneeAngle :: jsnum
  cur_minHipAngle :: jsnum
  cur_maxKneeAngle :: jsnum
  cur_maxHipAngle :: jsnum
  cur_maxHeelAngle :: jsnum
  cur_hipAnkleDiff :: jsnum
  cur_minHipAnkleDiff :: jsnum
  cur_maxKneeForward :: jsnum

text \<open>The React state \<open>displayAngles\<close>: the live view, or the snapshot of the last repetition.\<close>

record display_angles =
  disp_kneeAngle :: jsnum
  disp_hipAngle :: jsnum
  disp_heelAngle :: jsnum
  disp_minKneeAngle :: jsnum
  disp_minHipAngle :: jsnum
  disp_maxKneeAngle :: jsnum
  disp_maxHipAngle :: jsnum
  disp_maxHeelAngle :: jsnum
  showingLastRep :: bool
  disp_hipAnkleDiff :: jsnum
  disp_minHipAnkleDiff :: jsnum

text \<open>
  The whole component: its React states, the object of \<open>squatState.current\<close>, and the
  timers of the runtime that are pending, each with its handle and the instant at which
  it is due. A state setter changes the state at once, and the functional updates of the
  source (\<open>setSquatCounter\<close>, and \<open>setDisplayAngles\<close> in the timer) read that state.

  The functions of the component are closures of a render: in them the name
  \<open>displayAngles\<close> is a constant, the value the state had when React rendered the component
  last. \<open>renderedDisplayAngles\<close> is that value. \<open>analyzeSquat\<close> reads it once, in the test
  \<open>!displayAngles.showingLastRep\<close>; the other names of React states in the closures are
  read by the logging only.
\<close>

record analyzer =
  squatCounter :: nat
  squatStage :: "string option"
  warningMessages :: "string list"
  currentAngles :: current_angles
  displayAngles :: display_angles
  renderedDisplayAngles :: display_angles
  squatState :: squat_state
  pendingTimers :: "(nat \<times> int) list"
  nextTimerId :: nat

definition initialSquatState :: squat_state where
  "initialSquatState =
     \<lparr>descending = False, minKneeAngle = Num 360, minHipAngle = Num 360,
      maxKneeForward = Num (- 1), depthWarningGiven = False, backWarningGiven = False,
      toeWarningGiven = False, lastWarningTime = 0, maxKneeAngle = Num 0,
      maxHipAngle = Num 0, maxHeelAngle = Num 0, minHipAnkleDiff = Num 999,
      angleDisplayTimer = None\<rparr>"

definition initialCurrentAngles :: current_angles where
  "initialCurrentAngles =
     \<lparr>cur_kneeAngle = Num 0, cur_hipAngle = Num 0, cur_heelAngle = Num 0,
      cur_minKneeAngle = Num 360, cur_minHipAngle = Num 360, cur_maxKneeAngle = Num 0,
      cur_maxHipAngle = Num 0, cur_maxHeelAngle = Num 0, cur_hipAnkleDiff = Num 0,
      cur_minHipAnkleDiff = Num 999, cur_maxKneeForward = Num (- 1)\<rparr>"

definition initialDisplayAngles :: display_angles where
  "initialDisplayAngles =
     \<lparr>disp_kneeAngle = Num 0, disp_hipAngle = Num 0, disp_heelAngle = Num 0,
      disp_minKneeAngle = Num 360, disp_minHipAngle = Num 360, disp_maxKneeAngle = Num 0,
      disp_maxHipAngle = Num 0, disp_maxHeelAngle = Num 0, showingLastRep = False,
      disp_hipAnkleDiff = Num 0, disp_minHipAnkleDiff = Num 999\<rparr>"

definition initialAnalyzer :: analyzer where
  "initialAnalyzer =
     \<lparr>squatCounter = 0, squatStage = None, warningMessages = [],
      currentAngles = initialCurrentAngles, displayAngles = initialDisplayAngles,
      renderedDisplayAngles = initialDisplayAngles,
      squatState = initialSquatState, pendingTimers = [], nextTimerId = 1\<rparr>"

subsection \<open>Timers of the runtime\<close>

text \<open>
  \<open>setTimeout\<close> registers a callback under a fresh handle and returns the handle; the
  callback becomes due \<open>delay\<close> milliseconds after \<open>now\<close>. The only callback this component
  registers is the one that ends the display of the last repetition, so a pending timer
  is its handle and its due instant. \<open>clearTimeout\<close> removes the timer of a handle, and
  does nothing for a handle that is no longer pending. A handle is a truthy value: the
  tests \<open>if (state.angleDisplayTimer)\<close> of the source ask whether the field holds one.
\<close>

definition setTimeout :: "int \<Rightarrow> int \<Rightarrow> analyzer \<Rightarrow> nat \<times> analyzer" where
  "setTimeout now delay app =
     (nextTimerId app,
      app\<lparr>pendingTimers := pendingTimers app @ [(nextTimerId app, now + delay)],
          nextTimerId := nextTimerId app + 1\<rparr>)"

definition clearTimeout :: "nat \<Rightarrow> analyzer \<Rightarrow> analyzer" where
  "clearTimeout h app = app\<lparr>pendingTimers := filter (\<lambda>t. fst t \<noteq> h) (pendingTimers app)\<rparr>"

text \<open>
  The callback of the timer. Its second statement, \<open>state.angleDisplayTimer = null\<close>,
  writes to the object that \<open>squatState.current\<close> held when the repetition completed;
  \<open>resetSquatRep\<close> replaced that object by a copy in the same call, before any timer could
  run, so the write never reaches the object of \<open>squatState.current\<close>.
\<close>

definition angleDisplayExpired :: "analyzer \<Rightarrow> analyzer" where
  "angleDisplayExpired app = app\<lparr>displayAngles := (displayAngles app)\<lparr>showingLastRep := False\<rparr>\<rparr>"

primrec fireAll :: "(nat \<times> int) list \<Rightarrow> analyzer \<Rightarrow> analyzer" where
  "fireAll [] app = app"
| "fireAll (t # ts) app = fireAll ts (angleDisplayExpired app)"

text \<open>The runtime at the instant \<open>now\<close>: every pending timer that is due runs, once.\<close>

definition runTimers :: "int \<Rightarrow> analyzer \<Rightarrow> analyzer" where
  "runTimers now app =
     fireAll (filter (\<lambda>t. snd t \<le> now) (pendingTimers app))
       (app\<lparr>pendingTimers := filter (\<lambda>t. \<not> snd t \<le> now) (pendingTimers app)\<rparr>)"

section \<open>Processing a frame (\<open>analyzeSquat\<close>)\<close>

definition RIGHT_SHOULDER :: nat where "RIGHT_SHOULDER = 11"
definition RIGHT_HIP :: nat where "RIGHT_HIP = 23"
definition RIGHT_KNEE :: nat where "RIGHT_KNEE = 25"
definition RIGHT_ANKLE :: nat where "RIGHT_ANKLE = 27"
definition RIGHT_HEEL :: nat where "RIGHT_HEEL = 29"
definition RIGHT_FOOT_INDEX :: nat where "RIGHT_FOOT_INDEX = 31"

text \<open>\<open>landmarks[i]\<close>: reading past the end of the array gives \<open>undefined\<close>, no landmark.\<close>

definition lookupLandmark :: "landmarks \<Rightarrow> nat \<Rightarrow> landmark option" where
  "lookupLandmark lms i = (if i < length lms then lms ! i else None)"

text \<open>
  The six landmarks \<open>analyzeSquat\<close> reads, in the order of its test
  \<open>!rShoulder || !rHip || !rKnee || !rAnkle || !rFootIndex || !rHeel\<close>; \<open>None\<close> when the
  test makes the function return.
\<close>

definition requiredLandmarks ::
  "landmarks \<Rightarrow> (landmark \<times> landmark \<times> landmark \<times> landmark \<times> landmark \<times> landmark) option" where
  "requiredLandmarks lms =
     (case lookupLandmark lms RIGHT_SHOULDER of None \<Rightarrow> None | Some rShoulder \<Rightarrow>
     (case lookupLandmark lms RIGHT_HIP of None \<Rightarrow> None | Some rHip \<Rightarrow>
     (case lookupLandmark lms RIGHT_KNEE of None \<Rightarrow> None | Some rKnee \<Rightarrow>
     (case lookupLandmark lms RIGHT_ANKLE of None \<Rightarrow> None | Some rAnkle \<Rightarrow>
     (case lookupLandmark lms RIGHT_FOOT_INDEX of None \<Rightarrow> None | Some rFootIndex \<Rightarrow>
     (case lookupLandmark lms RIGHT_HEEL of None \<Rightarrow> None | Some rHeel \<Rightarrow>
        Some (rShoulder, rHip, rKnee, rAnkle, rFootIndex, rHeel)))))))"

definition coords :: "landmark \<Rightarrow> point" where
  "coords l = (lm_x l, lm_y l)"

text \<open>\<open>resetSquatRep\<close>: a copy of the object, with the fields of the repetition reset.\<close>

definition resetSquatRep :: "squat_state \<Rightarrow> squat_state" where
  "resetSquatRep current =
     current\<lparr>descending := False, minKneeAngle := Num 360, minHipAngle := Num 360,
       maxKneeAngle := Num 0, maxHipAngle := Num 0, maxHeelAngle := Num 0,
       maxKneeForward := Num (- 1), depthWarningGiven := False, backWarningGiven := False,
       toeWarningGiven := False, minHipAnkleDiff := Num 999\<rparr>"

text \<open>
  \<open>setCurrentAngles\<close>, and \<open>setDisplayAngles\<close> unless the render of the closure showed the
  last repetition.
\<close>

definition showAngles :: "jsnum \<Rightarrow> jsnum \<Rightarrow> jsnum \<Rightarrow> analyzer \<Rightarrow> analyzer" where
  "showAngles kneeAngle hipAngle heelAngle app =
     (let current = squatState app;
          app1 = app\<lparr>currentAngles :=
            \<lparr>cur_kneeAngle = kneeAngle, cur_hipAngle = hipAngle, cur_heelAngle = heelAngle,
             cur_minKneeAngle = minKneeAngle current, cur_minHipAngle = minHipAngle current,
             cur_maxKneeAngle = maxKneeAngle current, cur_maxHipAngle = maxHipAngle current,
             cur_maxHeelAngle = maxHeelAngle current, cur_hipAnkleDiff = Num 0,
             cur_minHipAnkleDiff = minHipAnkleDiff current,
             cur_maxKneeForward = maxKneeForward current\<rparr>\<rparr>
      in if \<not> showingLastRep (renderedDisplayAngles app1)
         then app1\<lparr>displayAngles :=
            \<lparr>disp_kneeAngle = kneeAngle, disp_hipAngle = hipAngle, disp_heelAngle = heelAngle,
             disp_minKneeAngle = minKneeAngle current, disp_minHipAngle = minHipAngle current,
             disp_maxKneeAngle = maxKneeAngle current, disp_maxHipAngle = maxHipAngle current,
             disp_maxHeelAngle = maxHeelAngle current, showingLastRep = False,
             disp_hipAnkleDiff = Num 0, disp_minHipAnkleDiff = minHipAnkleDiff current\<rparr>\<rparr>
         else app1)"

text \<open>\<open>if (kneeAngle > 85 && !state.descending)\<close>: the descent starts.\<close>

definition startDescent :: "jsnum \<Rightarrow> jsnum \<Rightarrow> jsnum \<Rightarrow> analyzer \<Rightarrow> analyzer" where
  "startDescent kneeAngle hipAngle heelAngle app =
     (let state = squatState app
      in if js_gt kneeAngle (Num 85) \<and> \<not> descending state
         then app\<lparr>squatState := state\<lparr>descending := True, maxKneeAngle := kneeAngle,
                     maxHipAngle := hipAngle, maxHeelAngle := heelAngle,
                     minKneeAngle := kneeAngle\<rparr>,
                  squatStage := Some ''down''\<rparr>
         else app)"

text \<open>\<open>if (state.descending)\<close>: the extrema follow the frame.\<close>

definition trackAngles :: "jsnum \<Rightarrow> jsnum \<Rightarrow> jsnum \<Rightarrow> jsnum \<Rightarrow> analyzer \<Rightarrow> analyzer" where
  "trackAngles kneeAngle hipAngle heelAngle kneeX app =
     (let state = squatState app
      in if descending state
         then app\<lparr>squatState := state\<lparr>
                maxKneeAngle := js_max (maxKneeAngle state) kneeAngle,
                maxHipAngle := js_max (maxHipAngle state) hipAngle,
                maxHeelAngle := js_max (maxHeelAngle state) heelAngle,
                maxKneeForward := js_max (maxKneeForward state) kneeX,
                minKneeAngle := js_min (minKneeAngle state) kneeAngle\<rparr>\<rparr>
         else app)"

text \<open>The depth rule: the warnings it pushes, and the object with the flag it sets.\<close>

definition depthCheck :: "squat_state \<Rightarrow> string list \<times> squat_state" where
  "depthCheck state =
     (if \<not> depthWarningGiven state then
        if js_gt (maxKneeAngle state) (Num 140)
        then ([''Too deep! Protect your knees''], state\<lparr>depthWarningGiven := True\<rparr>)
        else if js_lt (maxKneeAngle state) (Num 100)
        then ([''Not deep enough! Go deeper''], state\<lparr>depthWarningGiven := True\<rparr>)
        else ([], state)
      else ([], state))"

text \<open>\<open>if (kneeAngle < 30 && state.descending)\<close>: the repetition completes.\<close>

definition completeRep :: "jsnum \<Rightarrow> jsnum \<Rightarrow> jsnum \<Rightarrow> int \<Rightarrow> analyzer \<Rightarrow> analyzer" where
  "completeRep kneeAngle hipAngle heelAngle currentTime app =
     (let state = squatState app
      in if js_lt kneeAngle (Num 30) \<and> descending state then
           (let app1 = app\<lparr>squatCounter := squatCounter app + 1\<rparr>;
                finalAngles =
                  \<lparr>disp_kneeAngle = kneeAngle, disp_hipAngle = hipAngle,
                   disp_heelAngle = heelAngle, disp_minKneeAngle = minKneeAngle state,
                   disp_minHipAngle = minHipAngle state,
                   disp_maxKneeAngle = maxKneeAngle state,
                   disp_maxHipAngle = maxHipAngle state,
                   disp_maxHeelAngle = maxHeelAngle state, showingLastRep = True,
                   disp_hipAnkleDiff = Num 0,
                   disp_minHipAnkleDiff = minHipAnkleDiff state\<rparr>;
                app2 = app1\<lparr>displayAngles := finalAngles\<rparr>;
                app3 = (case angleDisplayTimer state of
                          Some h \<Rightarrow> clearTimeout h app2
                        | None \<Rightarrow> app2);
                (h, app4) = setTimeout currentTime 3000 app3;
                state1 = state\<lparr>angleDisplayTimer := Some h\<rparr>;
                (newWarnings, state2) = depthCheck state1;
                app5 = (if 0 < length newWarnings
                        then app4\<lparr>warningMessages := newWarnings\<rparr> else app4);
                state3 = (if 0 < length newWarnings
                          then state2\<lparr>lastWarningTime := currentTime\<rparr> else state2)
            in app5\<lparr>squatState := resetSquatRep state3, squatStage := Some ''up''\<rparr>)
         else app)"

text \<open>
  \<open>if (currentTime - state.lastWarningTime > 2000)\<close>. The source reads the object it
  took from \<open>squatState.current\<close> at the start of the call; when \<open>resetSquatRep\<close> has
  replaced it in between, the copy has the same \<open>lastWarningTime\<close>.
\<close>

definition clearWarnings :: "int \<Rightarrow> analyzer \<Rightarrow> analyzer" where
  "clearWarnings currentTime app =
     (if currentTime - lastWarningTime (squatState app) > 2000
      then app\<lparr>warningMessages := []\<rparr> else app)"

text \<open>The body of \<open>analyzeSquat\<close> once the three angles are computed.\<close>

definition analyzeAngles ::
  "jsnum \<Rightarrow> jsnum \<Rightarrow> jsnum \<Rightarrow> jsnum \<Rightarrow> int \<Rightarrow> analyzer \<Rightarrow> analyzer" where
  "analyzeAngles kneeAngle hipAngle heelAngle kneeX currentTime app =
     clearWarnings currentTime
       (completeRep kneeAngle hipAngle heelAngle currentTime
         (trackAngles kneeAngle hipAngle heelAngle kneeX
           (startDescent kneeAngle hipAngle heelAngle
             (showAngles kneeAngle hipAngle heelAngle app))))"

text \<open>\<open>analyzeSquat\<close>, with the value of \<open>Date.now()\<close> as an argument.\<close>

definition analyzeSquat :: "landmarks \<Rightarrow> int \<Rightarrow> analyzer \<Rightarrow> analyzer" where
  "analyzeSquat lms currentTime app =
     (case requiredLandmarks lms of
        None \<Rightarrow> app
      | Some (rShoulder, rHip, rKnee, rAnkle, rFootIndex, rHeel) \<Rightarrow>
          analyzeAngles
            (calculateAngle (coords rHip) (coords rKnee) (coords rAnkle))
            (calculateAngle (coords rShoulder) (coords rHip) (coords rKnee))
            (calculateAngle (coords rFootIndex) (coords rHeel) (coords rKnee))
            (Num (lm_x rKnee)) currentTime app)"

section \<open>Resetting the counter (\<open>resetCounter\<close>)\<close>

definition resetCounter :: "analyzer \<Rightarrow> analyzer" where
  "resetCounter app =
     (let app1 = app\<lparr>squatCounter := 0, warningMessages := [],
                     squatState := resetSquatRep (squatState app), squatStage := None\<rparr>;
          app2 = (case angleDisplayTimer (squatState app1) of
                    Some h \<Rightarrow> (clearTimeout h app1)
                                \<lparr>squatState := (squatState app1)\<lparr>angleDisplayTimer := None\<rparr>\<rparr>
                  | None \<Rightarrow> app1)
      in app2\<lparr>displayAngles := initialDisplayAngles, currentAngles := initialCurrentAngles\<rparr>)"

section \<open>Runs\<close>

text \<open>
  React renders the component: the closures that handle the events from now on are those
  of this render, with the state as it is now.
\<close>

definition render :: "analyzer \<Rightarrow> analyzer" where
  "render app = app\<lparr>renderedDisplayAngles := displayAngles app\<rparr>"

text \<open>
  What happens to the component: a frame arrives at an instant, the user resets the
  counter, the runtime reaches an instant and runs the timers due by then, or React
  renders. A sequence of events may render after every event, after some, or never.
\<close>

datatype event = Frame landmarks int | Reset | Elapse int | Render

fun handleEvent :: "event \<Rightarrow> analyzer \<Rightarrow> analyzer" where
  "handleEvent (Frame lms now) app = analyzeSquat lms now app"
| "handleEvent Reset app = resetCounter app"
| "handleEvent (Elapse now) app = runTimers now app"
| "handleEvent Render app = render app"

fun runEvents :: "event list \<Rightarrow> analyzer \<Rightarrow> analyzer" where
  "runEvents [] app = app"
| "runEvents (e # es) app = runEvents es (handleEvent e app)"

text \<open>
  A sequence of frames, each with its instant, and nothing else: React does not render
  between them.
\<close>

fun processFrames :: "(landmarks \<times> int) list \<Rightarrow> analyzer \<Rightarrow> analyzer" where
  "processFrames [] app = app"
| "processFrames (f # fs) app = processFrames fs (analyzeSquat (fst f) (snd f) app)"

text \<open>
  The number of frames of a sequence over which the phase goes from descending to up:
  \<open>descending\<close> holds before the frame and no longer after it.
\<close>

fun completedTransitions :: "(landmarks \<times> int) list \<Rightarrow> analyzer \<Rightarrow> nat" where
  "completedTransitions [] app = 0"
| "completedTransitions (f # fs) app =
     (let app' = analyzeSquat (fst f) (snd f) app
      in (if descending (squatState app) \<and> \<not> descending (squatState app') then 1 else 0)
         + completedTransitions fs app')"

text \<open>The knee angle \<open>analyzeSquat\<close> computes for a frame, when it computes one.\<close>

definition liveKneeAngle :: "landmarks \<Rightarrow> jsnum option" where
  "liveKneeAngle lms =
     (case requiredLandmarks lms of
        None \<Rightarrow> None
      | Some (rShoulder, rHip, rKnee, rAnkle, rFootIndex, rHeel) \<Rightarrow>
          Some (calculateAngle (coords rHip) (coords rKnee) (coords rAnkle)))"

text \<open>
  Frames given by the angles they yield: the knee, hip and heel angles, the \<open>x\<close>
  coordinate of the knee and the instant of the frame.
\<close>

type_synonym sample = "jsnum \<times> jsnum \<times> jsnum \<times> jsnum \<times> int"

fun analyzeSample :: "sample \<Rightarrow> analyzer \<Rightarrow> analyzer" where
  "analyzeSample (kneeAngle, hipAngle, heelAngle, kneeX, currentTime) app =
     analyzeAngles kneeAngle hipAngle heelAngle kneeX currentTime app"

fun analyzeSamples :: "sample list \<Rightarrow> analyzer \<Rightarrow> analyzer" where
  "analyzeSamples [] app = app"
| "analyzeSamples (s # ss) app = analyzeSamples ss (analyzeSample s app)"

text \<open>The phase after each frame of a sequence: whether the analyser is descending.\<close>

fun descendingAfter :: "sample list \<Rightarrow> analyzer \<Rightarrow> bool list" where
  "descendingAfter [] app = []"
| "descendingAfter (s # ss) app =
     descending (squatState (analyzeSample s app)) # descendingAfter ss (analyzeSample s app)"

text \<open>
  A frame of 32 slots that holds the six landmarks the analyser reads, at their indices,
  and no other.
\<close>

definition frameOf ::
  "point \<Rightarrow> point \<Rightarrow> point \<Rightarrow> point \<Rightarrow> point \<Rightarrow> point \<Rightarrow> landmarks" where
  "frameOf shoulder hip knee ankle heel foot =
     (replicate 32 None)
       [RIGHT_SHOULDER := Some \<lparr>lm_x = fst shoulder, lm_y = snd shoulder\<rparr>,
        RIGHT_HIP := Some \<lparr>lm_x = fst hip, lm_y = snd hip\<rparr>,
        RIGHT_KNEE := Some \<lparr>lm_x = fst knee, lm_y = snd knee\<rparr>,
        RIGHT_ANKLE := Some \<lparr>lm_x = fst ankle, lm_y = snd ankle\<rparr>,
        RIGHT_HEEL := Some \<lparr>lm_x = fst heel, lm_y = snd heel\<rparr>,
        RIGHT_FOOT_INDEX := Some \<lparr>lm_x = fst foot, lm_y = snd foot\<rparr>]"

section \<open>Concrete frames and a concrete session\<close>

text \<open>
  Four frames with coordinates in the unit square. The knee angle is 180 in the deep
  frame (hip and ankle on the same side of the knee), 90 in the bent frame and 0 in the
  standing frame (hip, knee and ankle in line); hip and heel angles are 90. In the
  collapsed frame the detector reports the hip at the point of the knee.
\<close>

definition deepFrame :: landmarks where
  "deepFrame = frameOf (0, 0) (0, 1/2) (1/2, 1/2) (0, 1/2) (1/2, 1) (1, 1)"

definition bentFrame :: landmarks where
  "bentFrame = frameOf (0, 0) (0, 1/2) (1/2, 1/2) (1/2, 1) (1/2, 1) (1, 1)"

definition standingFrame :: landmarks where
  "standingFrame = frameOf (0, 0) (1/2, 0) (1/2, 1/2) (1/2, 1) (1/2, 1) (1, 1)"

definition collapsedFrame :: landmarks where
  "collapsedFrame = frameOf (0, 0) (1/2, 1/2) (1/2, 1/2) (1/2, 1) (1/2, 1) (1, 1)"

text \<open>
  A coordinate of the unit square whose square is too small for a double: two points at
  this distance from the origin on the two axes are distinct from the origin, and the
  angle at the origin between them is a right angle.
\<close>

definition tinyCoordinate :: real where
  "tinyCoordinate = 2 powi (- 600)"

text \<open>
  A session of two repetitions: a deep frame and a standing frame, then a bent frame and
  a standing frame, 100 ms apart.
\<close>

definition afterDescent :: analyzer where
  "afterDescent = analyzeSquat deepFrame 0 initialAnalyzer"

definition afterFirstRep :: analyzer where
  "afterFirstRep = analyzeSquat standingFrame 100 afterDescent"

definition afterSecondDescent :: analyzer where
  "afterSecondDescent = analyzeSquat bentFrame 200 afterFirstRep"

definition afterSecondRep :: analyzer where
  "afterSecondRep = analyzeSquat standingFrame 300 afterSecondDescent"

text \<open>
  The frame that follows the first repetition, 33 ms after it: handled before React has
  rendered, and handled after.
\<close>

definition afterStaleFrame :: analyzer where
  "afterStaleFrame = analyzeSquat bentFrame 133 afterFirstRep"

definition afterFreshFrame :: analyzer where
  "afterFreshFrame = analyzeSquat bentFrame 133 (render afterFirstRep)"

text \<open>
  The frames of the first scenario of the specification, given by their angles: knee
  angles 170, 120, 90, 70, 50 and 20, hip and heel angles 90, the knee at \<open>x = 1/2\<close>, one
  frame every 33 ms.
\<close>

definition scenarioSamples :: "sample list" where
  "scenarioSamples =
     [(Num 170, Num 90, Num 90, Num (1/2), 0), (Num 120, Num 90, Num 90, Num (1/2), 33),
      (Num 90, Num 90, Num 90, Num (1/2), 66), (Num 70, Num 90, Num 90, Num (1/2), 100),
      (Num 50, Num 90, Num 90, Num (1/2), 133), (Num 20, Num 90, Num 90, Num (1/2), 166)]"

text \<open>
  A descent during which the detector reports, for one frame, the hip at the point of the
  knee.
\<close>

definition collapsedSession :: "(landmarks \<times> int) list" where
  "collapsedSession = [(deepFrame, 0), (collapsedFrame, 33), (standingFrame, 66)]"

section \<open>The invariant of the runs\<close>

text \<open>
  At the start of every event the flag of the depth warning is down, and a pending timer,
  if there is one, is the only one and is the one whose handle the field
  \<open>angleDisplayTimer\<close> holds.
\<close>

definition consistent :: "analyzer \<Rightarrow> bool" where
  "consistent app =
     (\<not> depthWarningGiven (squatState app) \<and>
      (pendingTimers app = [] \<or>
       (\<exists>h due. pendingTimers app = [(h, due)] \<and>
                  angleDisplayTimer (squatState app) = Some h)))"

section \<open>The depth rule of the specification\<close>

text \<open>
  The warning the specification gives for the greatest knee angle of a repetition: above
  140 the repetition is too deep, below 100 it is not deep enough, and otherwise there is
  no depth warning.
\<close>

definition depthWarningFor :: "jsnum \<Rightarrow> string list" where
  "depthWarningFor m =
     (if js_gt m (Num 140) then [''Too deep! Protect your knees'']
      else if js_lt m (Num 100) then [''Not deep enough! Go deeper'']
      else [])"

section \<open>Rounding to a double\<close>

lemma roundHalfEven_of_int [simp]: "roundHalfEven (of_int m) = m"
  by (simp add: roundHalfEven_def)

lemma roundHalfEven_close: "\<bar>of_int (roundHalfEven y) - y\<bar> \<le> 1 / 2"
proof -
  have "of_int \<lfloor>y\<rfloor> \<le> y" "y < of_int \<lfloor>y\<rfloor> + 1"
    by linarith+
  then show ?thesis
    by (auto simp add: roundHalfEven_def Let_def)
qed

lemma roundHalfEven_small:
  assumes "\<bar>y\<bar> < 1 / 2"
  shows "roundHalfEven y = 0"
proof (cases "0 \<le> y")
  case True
  then have "\<lfloor>y\<rfloor> = 0"
    using assms by (simp add: floor_eq_iff)
  then show ?thesis
    using assms True by (simp add: roundHalfEven_def)
next
  case False
  then have "\<lfloor>y\<rfloor> = - 1"
    using assms by (simp add: floor_eq_iff)
  then show ?thesis
    using assms False by (simp add: roundHalfEven_def)
qed

lemma two_powi_pos: "0 < (2::real) powi e"
  by simp

lemma nearestMultiple_close: "\<bar>nearestMultiple x e - x\<bar> \<le> 2 powi e / 2"
proof -
  let ?y = "x / 2 powi e"
  have x: "x = ?y * 2 powi e"
    by simp
  have "nearestMultiple x e - x = (of_int (roundHalfEven ?y) - ?y) * 2 powi e"
    by (simp add: nearestMultiple_def algebra_simps)
  then have "\<bar>nearestMultiple x e - x\<bar> = \<bar>of_int (roundHalfEven ?y) - ?y\<bar> * 2 powi e"
    by (simp add: abs_mult)
  also have "\<dots> \<le> (1 / 2) * 2 powi e"
    by (rule mult_right_mono [OF roundHalfEven_close]) simp
  finally show ?thesis
    by simp
qed

lemma nearestMultiple_exact:
  assumes "e \<le> k"
  shows "nearestMultiple (of_int m * 2 powi k) e = of_int m * 2 powi k"
proof -
  have k: "(2::real) powi k = 2 powi (k - e) * 2 powi e"
    using power_int_add [of "2::real" "k - e" e] by simp
  have "(2::real) powi (k - e) = of_int (2 ^ nat (k - e))"
    using assms by (simp add: power_int_nonneg_exp)
  then have "real_of_int m * 2 powi k / 2 powi e = of_int (m * 2 ^ nat (k - e))"
    by (simp add: k)
  then have "roundHalfEven (real_of_int m * 2 powi k / 2 powi e) = m * 2 ^ nat (k - e)"
    by (simp only: roundHalfEven_of_int)
  then have "nearestMultiple (of_int m * 2 powi k) e =
      of_int (m * 2 ^ nat (k - e)) * 2 powi e"
    by (simp only: nearestMultiple_def)
  also have "\<dots> = of_int m * (2 powi (k - e) * 2 powi e)"
    using assms by (simp add: power_int_nonneg_exp)
  finally show ?thesis
    by (simp only: k [symmetric])
qed

lemma floor_log2_bounds:
  assumes "x \<noteq> 0"
  shows "2 powi \<lfloor>log 2 \<bar>x\<bar>\<rfloor> \<le> \<bar>x\<bar>" and "\<bar>x\<bar> < 2 powi (\<lfloor>log 2 \<bar>x\<bar>\<rfloor> + 1)"
proof -
  have pos: "0 < \<bar>x\<bar>"
    using assms by simp
  have b: "2 powr real_of_int \<lfloor>log 2 \<bar>x\<bar>\<rfloor> \<le> \<bar>x\<bar> \<and>
        \<bar>x\<bar> < 2 powr (real_of_int \<lfloor>log 2 \<bar>x\<bar>\<rfloor> + 1)"
    using floor_log_eq_powr_iff [of "\<bar>x\<bar>" 2 "\<lfloor>log 2 \<bar>x\<bar>\<rfloor>"] pos by simp
  have "real_of_int \<lfloor>log 2 \<bar>x\<bar>\<rfloor> + 1 = real_of_int (\<lfloor>log 2 \<bar>x\<bar>\<rfloor> + 1)"
    by simp
  then have "\<bar>x\<bar> < 2 powr real_of_int (\<lfloor>log 2 \<bar>x\<bar>\<rfloor> + 1)"
    using b by (simp only:)
  then show "\<bar>x\<bar> < 2 powi (\<lfloor>log 2 \<bar>x\<bar>\<rfloor> + 1)"
    by (simp only: powr_real_of_int' [of 2, simplified])
  show "2 powi \<lfloor>log 2 \<bar>x\<bar>\<rfloor> \<le> \<bar>x\<bar>"
    using b by (simp only: powr_real_of_int' [of 2, simplified])
qed

lemma fl_zero [simp]: "fl 0 = Num 0"
  by (simp add: fl_def nearestMultiple_def roundHalfEven_def)

text \<open>A result below half the least positive double rounds to zero.\<close>

lemma fl_underflow:
  assumes "\<bar>x\<bar> < 2 powi (- 1075)"
  shows "fl x = Num 0"
proof -
  have "(2::real) powi (- 1075) \<le> 2 powi (- 1022)"
    by (rule power_int_increasing) simp_all
  then have sub: "\<bar>x\<bar> < 2 powi (- 1022)"
    using assms by simp
  then have e: "quantumExponent x = - 1074"
    by (simp only: quantumExponent_def if_True)
  have "(2::real) powi (- 1075) = 2 powi (- 1074) * (1 / 2)"
    using power_int_add [of "2::real" "- 1074" "- 1"] by (simp add: power_int_minus)
  then have "\<bar>x\<bar> / 2 powi (- 1074) < 1 / 2"
    using assms by (simp add: pos_divide_less_eq mult.commute)
  then have "\<bar>x / 2 powi (- 1074)\<bar> < 1 / 2"
    by (simp add: abs_divide)
  then have "roundHalfEven (x / 2 powi (- 1074)) = 0"
    by (rule roundHalfEven_small)
  then have "nearestMultiple x (quantumExponent x) = 0"
    by (simp only: nearestMultiple_def e of_int_0 mult_zero_left)
  then show ?thesis
    by (simp add: fl_def)
qed

lemma two_powi_less_imp: "(2::real) powi a < 2 powi b \<Longrightarrow> a < b"
  using power_int_increasing [of b a "2::real"] by (cases "a < b") simp_all

lemma quantumExponent_le:
  assumes "\<bar>m\<bar> < 2 ^ 53" and "- 1074 \<le> k"
  shows "quantumExponent (of_int m * 2 powi k) \<le> k"
proof (cases "\<bar>real_of_int m * 2 powi k\<bar> < 2 powi (- 1022)")
  case True
  then show ?thesis
    using assms(2) by (simp only: quantumExponent_def if_True)
next
  case False
  let ?x = "real_of_int m * 2 powi k"
  let ?L = "\<lfloor>log 2 \<bar>?x\<bar>\<rfloor>"
  have nz: "?x \<noteq> 0"
    using False by auto
  have "real_of_int \<bar>m\<bar> < 2 ^ 53"
    using assms(1) by (metis of_int_less_numeral_power_cancel_iff)
  then have "\<bar>real_of_int m\<bar> * 2 powi k < 2 ^ 53 * 2 powi k"
    by (simp add: mult_strict_right_mono)
  moreover have "\<bar>?x\<bar> = \<bar>real_of_int m\<bar> * 2 powi k"
    by (simp add: abs_mult)
  moreover have "(2::real) ^ 53 * 2 powi k = 2 powi (53 + k)"
    using power_int_add [of "2::real" 53 k] by simp
  ultimately have "\<bar>?x\<bar> < 2 powi (53 + k)"
    by (simp only:)
  moreover have "2 powi ?L \<le> \<bar>?x\<bar>"
    using nz by (rule floor_log2_bounds)
  ultimately have "(2::real) powi ?L < 2 powi (53 + k)"
    by simp
  then have "?L < 53 + k"
    by (rule two_powi_less_imp)
  moreover have "quantumExponent ?x = ?L - 52"
    using False by (simp only: quantumExponent_def if_False)
  ultimately show ?thesis
    by linarith
qed

lemma fl_exact:
  assumes "\<bar>m\<bar> < 2 ^ 53" and "- 1074 \<le> k"
    and "\<bar>real_of_int m * 2 powi k\<bar> < 2 powi 1024"
  shows "fl (of_int m * 2 powi k) = Num (of_int m * 2 powi k)"
proof -
  have "nearestMultiple (of_int m * 2 powi k) (quantumExponent (of_int m * 2 powi k)) =
      of_int m * 2 powi k"
    by (rule nearestMultiple_exact) (rule quantumExponent_le [OF assms(1,2)])
  moreover have "\<not> 2 powi 1024 \<le> \<bar>real_of_int m * 2 powi k\<bar>"
    using assms(3) by linarith
  ultimately show ?thesis
    by (simp only: fl_def Let_def if_False)
qed

lemma fl_close:
  assumes "\<bar>x\<bar> \<le> 2 powi 1023"
  shows "\<exists>r. fl x = Num r \<and> \<bar>r - x\<bar> \<le> \<bar>x\<bar> * 2 powi (- 53) + 2 powi (- 1075)"
proof -
  let ?e = "quantumExponent x"
  let ?r = "nearestMultiple x ?e"
  have half: "(2::real) powi e / 2 = 2 powi (e - 1)" for e
    using power_int_diff [of "2::real" e 1] by simp
  have close: "\<bar>?r - x\<bar> \<le> 2 powi (?e - 1)"
    using nearestMultiple_close [of x ?e] by (simp only: half)
  have bound: "2 powi (?e - 1) \<le> \<bar>x\<bar> * 2 powi (- 53) + 2 powi (- 1075)"
  proof (cases "\<bar>x\<bar> < 2 powi (- 1022)")
    case True
    then have "?e = - 1074"
      by (simp only: quantumExponent_def if_True)
    then have "(2::real) powi (?e - 1) = 2 powi (- 1075)"
      by simp
    moreover have "0 \<le> \<bar>x\<bar> * 2 powi (- 53)"
      by simp
    ultimately show ?thesis
      by linarith
  next
    case False
    then have nz: "x \<noteq> 0"
      by auto
    have e: "?e = \<lfloor>log 2 \<bar>x\<bar>\<rfloor> - 52"
      using False by (simp only: quantumExponent_def if_False)
    have "(2::real) powi (?e - 1) = 2 powi \<lfloor>log 2 \<bar>x\<bar>\<rfloor> * 2 powi (- 53)"
      using power_int_add [of "2::real" "\<lfloor>log 2 \<bar>x\<bar>\<rfloor>" "- 53"] by (simp add: e)
    also have "\<dots> \<le> \<bar>x\<bar> * 2 powi (- 53)"
      by (rule mult_right_mono [OF floor_log2_bounds(1) [OF nz]]) simp
    finally show ?thesis
      using zero_less_power_int [of "2::real" "- 1075"] by linarith
  qed
  have err: "\<bar>?r - x\<bar> \<le> \<bar>x\<bar> * 2 powi (- 53) + 2 powi (- 1075)"
    using close bound by linarith
  have "(2::real) powi (- 53) \<le> 2 powi (- 2)" "(2::real) powi (- 1075) \<le> 2 powi (- 2)"
    by (rule power_int_increasing; simp)+
  then have small: "(2::real) powi (- 53) \<le> 1 / 4" "(2::real) powi (- 1075) \<le> 1 / 4"
    by (simp_all add: power_int_minus)
  have "\<bar>x\<bar> * 2 powi (- 53) \<le> \<bar>x\<bar> * (1 / 4)"
    by (rule mult_left_mono [OF small(1)]) simp
  then have "\<bar>?r\<bar> \<le> \<bar>x\<bar> + \<bar>x\<bar> / 4 + 1 / 4"
    using err small(2) by linarith
  moreover have "(2::real) powi 1024 = 2 * 2 powi 1023"
    using power_int_add [of "2::real" 1 1023] by simp
  moreover have "(1::real) \<le> 2 powi 1023"
    by (rule one_le_power_int) simp_all
  ultimately have "\<not> 2 powi 1024 \<le> \<bar>?r\<bar>"
    using assms by linarith
  then have "fl x = Num ?r"
    by (simp only: fl_def Let_def if_False)
  then show ?thesis
    using err by blast
qed

lemma fl_near:
  assumes "\<bar>x\<bar> \<le> 2 powi 1023"
  obtains r where "fl x = Num r" and "\<bar>r - x\<bar> \<le> (\<bar>x\<bar> + 1) / 10 ^ 15"
proof -
  obtain r where r: "fl x = Num r"
    and e: "\<bar>r - x\<bar> \<le> \<bar>x\<bar> * 2 powi (- 53) + 2 powi (- 1075)"
    using fl_close [OF assms] by blast
  have "(2::real) powi (- 1075) \<le> 2 powi (- 53)"
    by (rule power_int_increasing) simp_all
  moreover have s: "(2::real) powi (- 53) \<le> 1 / 10 ^ 15"
    by (simp add: power_int_minus field_simps)
  ultimately have t: "(2::real) powi (- 1075) \<le> 1 / 10 ^ 15"
    by linarith
  have "\<bar>x\<bar> * 2 powi (- 53) \<le> \<bar>x\<bar> * (1 / 10 ^ 15)"
    by (rule mult_left_mono [OF s]) simp
  then have "\<bar>r - x\<bar> \<le> (\<bar>x\<bar> + 1) / 10 ^ 15"
    using e t by (simp add: add_divide_distrib)
  with r that show thesis
    by blast
qed

lemma fl_values:
  "fl 1 = Num 1" "fl (- 1) = Num (- 1)" "fl (1 / 2) = Num (1 / 2)"
  "fl (- (1 / 2)) = Num (- (1 / 2))" "fl (1 / 4) = Num (1 / 4)"
  "fl (- (1 / 4)) = Num (- (1 / 4))" "fl 180 = Num 180"
  using fl_exact [of 1 0] fl_exact [of "- 1" 0] fl_exact [of 1 "- 1"] fl_exact [of "- 1" "- 1"]
    fl_exact [of 1 "- 2"] fl_exact [of "- 1" "- 2"] fl_exact [of 45 2]
  by (simp_all add: power_int_minus)

lemma fl_tiny:
  "fl tinyCoordinate = Num tinyCoordinate"
  "fl (tinyCoordinate * tinyCoordinate) = Num 0"
  "tinyCoordinate \<noteq> 0"
proof -
  have "\<bar>real_of_int 1 * 2 powi (- 600)\<bar> < 2 powi 1024"
    using power_int_strict_increasing [of "- 600" 1024 "2::real"] by simp
  then have "fl (real_of_int 1 * 2 powi (- 600)) = Num (real_of_int 1 * 2 powi (- 600))"
    by (intro fl_exact) simp_all
  then show "fl tinyCoordinate = Num tinyCoordinate"
    by (simp only: tinyCoordinate_def of_int_1 mult_1)
  have "(2::real) powi (- 600) * 2 powi (- 600) = 2 powi (- 1200)"
    using power_int_add [of "2::real" "- 600" "- 600"] by simp
  moreover have "(2::real) powi (- 1200) < 2 powi (- 1075)"
    by (rule power_int_strict_increasing) simp_all
  moreover have "0 \<le> (2::real) powi (- 1200)"
    by (rule zero_le_power_int) simp
  ultimately have "\<bar>tinyCoordinate * tinyCoordinate\<bar> < 2 powi (- 1075)"
    by (simp only: tinyCoordinate_def abs_of_nonneg)
  then show "fl (tinyCoordinate * tinyCoordinate) = Num 0"
    by (rule fl_underflow)
  show "tinyCoordinate \<noteq> 0"
    by (simp only: tinyCoordinate_def power_int_eq_0_iff) simp
qed

section \<open>Properties of \<open>calculateAngle\<close>\<close>

lemma moderate: "\<bar>x\<bar> \<le> 1024 \<Longrightarrow> \<bar>x\<bar> \<le> 2 powi 1023" for x :: real
proof -
  have "(2::real) powi 10 \<le> 2 powi 1023"
    by (rule power_int_increasing) simp_all
  moreover have "(2::real) powi 10 = 1024"
    by simp
  ultimately show "\<bar>x\<bar> \<le> 1024 \<Longrightarrow> \<bar>x\<bar> \<le> 2 powi 1023"
    by linarith
qed

lemma fl_moderate:
  assumes "\<bar>x\<bar> \<le> 1023"
  obtains r where "fl x = Num r" and "\<bar>r - x\<bar> \<le> 1 / 100000000000"
proof -
  have "\<bar>x\<bar> \<le> 2 powi 1023"
    using assms by (intro moderate) simp
  then obtain r where r: "fl x = Num r" and e: "\<bar>r - x\<bar> \<le> (\<bar>x\<bar> + 1) / 10 ^ 15"
    by (rule fl_near)
  note e
  also have "(\<bar>x\<bar> + 1) / 10 ^ 15 \<le> 1024 / 10 ^ 15"
    using assms by (intro divide_right_mono) simp_all
  also have "(1024::real) / 10 ^ 15 \<le> 1 / 100000000000"
    by simp
  finally have "\<bar>r - x\<bar> \<le> 1 / 100000000000" .
  with r that show thesis
    by blast
qed

lemma Math_PI_value:
  obtains P where "Math_PI = Num P" and "\<bar>P - pi\<bar> \<le> 1 / 100000000000"
    and "1 \<le> P" and "P \<le> 5"
proof -
  have b: "2 \<le> pi" "pi < 4"
    using pi_ge_two pi_less_4 by simp_all
  then have "\<bar>pi\<bar> \<le> 1023"
    by linarith
  then obtain P where P: "fl pi = Num P" and e: "\<bar>P - pi\<bar> \<le> 1 / 100000000000"
    by (rule fl_moderate)
  show thesis
  proof (rule that)
    show "Math_PI = Num P"
      by (simp add: Math_PI_def P)
    show "\<bar>P - pi\<bar> \<le> 1 / 100000000000"
      by (rule e)
    show "1 \<le> P" "P \<le> 5"
      using e b by linarith+
  qed
qed

lemma quotient_close:
  fixes d P c :: real
  assumes "1 \<le> P" and "\<bar>d - c * P\<bar> \<le> e"
  shows "\<bar>d / P - c\<bar> \<le> e"
proof -
  have "d / P - c = (d - c * P) / P"
    using assms(1) by (simp add: field_simps)
  then have "\<bar>d / P - c\<bar> = \<bar>d - c * P\<bar> / P"
    using assms(1) by simp
  also have "\<dots> \<le> \<bar>d - c * P\<bar> / 1"
    using assms(1) by (intro divide_left_mono) simp_all
  finally show ?thesis
    using assms(2) by simp
qed

text \<open>The last steps of the computation, from the arc cosine on.\<close>

lemma degrees_of_cosine_one:
  "js_round (js_sub (Num 180) (js_div (Num 0) Math_PI)) = Num 180"
proof -
  obtain P where P: "Math_PI = Num P" and "1 \<le> P"
    by (rule Math_PI_value)
  then have "P \<noteq> 0"
    by simp
  then show ?thesis
    by (simp add: P fl_values)
qed

lemma degrees_of_cosine_zero:
  "js_round (js_sub (Num 180) (js_div (js_mul (fl (pi / 2)) (Num 180)) Math_PI)) = Num 90"
proof -
  have b: "2 \<le> pi" "pi < 4"
    using pi_ge_two pi_less_4 by simp_all
  obtain P where P: "Math_PI = Num P" and Pe: "\<bar>P - pi\<bar> \<le> 1 / 100000000000"
    and P1: "1 \<le> P" and P5: "P \<le> 5"
    by (rule Math_PI_value)
  have "\<bar>pi / 2\<bar> \<le> 1023"
    using b by linarith
  then obtain h where h: "fl (pi / 2) = Num h" and he: "\<bar>h - pi / 2\<bar> \<le> 1 / 100000000000"
    by (rule fl_moderate)
  have "\<bar>h * 180\<bar> \<le> 1023"
    using he b by linarith
  then obtain d1 where d1: "fl (h * 180) = Num d1"
    and d1e: "\<bar>d1 - h * 180\<bar> \<le> 1 / 100000000000"
    by (rule fl_moderate)
  have "\<bar>d1 - 90 * P\<bar> \<le> 300 / 100000000000"
    using d1e he Pe by linarith
  then have q: "\<bar>d1 / P - 90\<bar> \<le> 300 / 100000000000"
    by (rule quotient_close [OF P1])
  then have "\<bar>d1 / P\<bar> \<le> 1023"
    by linarith
  then obtain d2 where d2: "fl (d1 / P) = Num d2"
    and d2e: "\<bar>d2 - d1 / P\<bar> \<le> 1 / 100000000000"
    by (rule fl_moderate)
  have "\<bar>180 - d2\<bar> \<le> 1023"
    using d2e q by linarith
  then obtain d3 where d3: "fl (180 - d2) = Num d3"
    and d3e: "\<bar>d3 - (180 - d2)\<bar> \<le> 1 / 100000000000"
    by (rule fl_moderate)
  have "90 \<le> d3 + 1 / 2 \<and> d3 + 1 / 2 < 91"
    using d3e d2e q by linarith
  then have "\<lfloor>d3 + 1 / 2\<rfloor> = 90"
    by (simp add: floor_eq_iff)
  moreover have "P \<noteq> 0"
    using P1 by simp
  ultimately show ?thesis
    by (simp add: P h d1 d2 d3)
qed

lemma degrees_of_cosine_minus_one:
  "js_round (js_sub (Num 180) (js_div (js_mul (fl pi) (Num 180)) Math_PI)) = Num 0"
proof -
  obtain P where P: "Math_PI = Num P" and Pe: "\<bar>P - pi\<bar> \<le> 1 / 100000000000"
    and P1: "1 \<le> P" and P5: "P \<le> 5"
    by (rule Math_PI_value)
  have Pfl: "fl pi = Num P"
    using P by (simp add: Math_PI_def)
  have "\<bar>P * 180\<bar> \<le> 1023"
    using P1 P5 by linarith
  then obtain d1 where d1: "fl (P * 180) = Num d1"
    and d1e: "\<bar>d1 - P * 180\<bar> \<le> 1 / 100000000000"
    by (rule fl_moderate)
  have "\<bar>d1 - 180 * P\<bar> \<le> 1 / 100000000000"
    using d1e by (simp add: mult.commute)
  then have q: "\<bar>d1 / P - 180\<bar> \<le> 1 / 100000000000"
    by (rule quotient_close [OF P1])
  then have "\<bar>d1 / P\<bar> \<le> 1023"
    by linarith
  then obtain d2 where d2: "fl (d1 / P) = Num d2"
    and d2e: "\<bar>d2 - d1 / P\<bar> \<le> 1 / 100000000000"
    by (rule fl_moderate)
  have "\<bar>180 - d2\<bar> \<le> 1023"
    using d2e q by linarith
  then obtain d3 where d3: "fl (180 - d2) = Num d3"
    and d3e: "\<bar>d3 - (180 - d2)\<bar> \<le> 1 / 100000000000"
    by (rule fl_moderate)
  have "0 \<le> d3 + 1 / 2 \<and> d3 + 1 / 2 < 1"
    using d3e d2e q by linarith
  then have "\<lfloor>d3 + 1 / 2\<rfloor> = 0"
    by (simp add: floor_eq_iff)
  moreover have "P \<noteq> 0"
    using P1 by simp
  ultimately show ?thesis
    by (simp add: P Pfl d1 d2 d3)
qed

text \<open>
  When \<open>a\<close> or \<open>c\<close> coincides with the vertex, the scalar product and the product of the
  lengths are each zero or \<open>NaN\<close>: the quotient is \<open>NaN\<close>, and the clamp, \<open>Math.acos\<close> and
  \<open>Math.round\<close> hand it on.
\<close>

lemma js_mul_zero:
  "js_mul (Num 0) q = Num 0 \<or> js_mul (Num 0) q = NaN"
  "js_mul q (Num 0) = Num 0 \<or> js_mul q (Num 0) = NaN"
  by (cases q; simp)+

lemma js_add_zero:
  assumes "p = Num 0 \<or> p = NaN" and "q = Num 0 \<or> q = NaN"
  shows "js_add p q = Num 0 \<or> js_add p q = NaN"
  using assms by auto

lemma js_div_zero:
  assumes "p = Num 0 \<or> p = NaN" and "q = Num 0 \<or> q = NaN"
  shows "js_div p q = NaN"
  using assms by auto

lemma degrees_of_NaN:
  "js_round (js_sub (Num 180)
     (js_div (js_mul (js_acos (js_max (Num (- 1)) (js_min (Num 1) NaN))) (Num 180)) Math_PI)) = NaN"
  by simp

lemma zero_magnitude: "js_sqrt (js_add (js_mul (Num 0) (Num 0)) (js_mul (Num 0) (Num 0))) = Num 0"
  by simp

lemma calculateAngle_degenerate:
  assumes "a = b \<or> c = b"
  shows "calculateAngle a b c = NaN"
proof -
  define ux where "ux = js_sub (Num (fst a)) (Num (fst b))"
  define uy where "uy = js_sub (Num (snd a)) (Num (snd b))"
  define vx where "vx = js_sub (Num (fst c)) (Num (fst b))"
  define vy where "vy = js_sub (Num (snd c)) (Num (snd b))"
  define dotProduct where "dotProduct = js_add (js_mul ux vx) (js_mul uy vy)"
  define magnitudeBA where "magnitudeBA = js_sqrt (js_add (js_mul ux ux) (js_mul uy uy))"
  define magnitudeBC where "magnitudeBC = js_sqrt (js_add (js_mul vx vx) (js_mul vy vy))"
  have "(ux = Num 0 \<and> uy = Num 0) \<or> (vx = Num 0 \<and> vy = Num 0)"
    using assms by (auto simp add: ux_def uy_def vx_def vy_def)
  then have "(dotProduct = Num 0 \<or> dotProduct = NaN) \<and>
      (js_mul magnitudeBA magnitudeBC = Num 0 \<or> js_mul magnitudeBA magnitudeBC = NaN)"
  proof
    assume z: "ux = Num 0 \<and> uy = Num 0"
    have "dotProduct = Num 0 \<or> dotProduct = NaN"
      unfolding dotProduct_def using z js_mul_zero(1) by (intro js_add_zero) simp_all
    moreover have "magnitudeBA = Num 0"
      unfolding magnitudeBA_def using z by simp
    ultimately show ?thesis
      using js_mul_zero(1) by simp
  next
    assume z: "vx = Num 0 \<and> vy = Num 0"
    have "dotProduct = Num 0 \<or> dotProduct = NaN"
      unfolding dotProduct_def using z js_mul_zero(2) by (intro js_add_zero) simp_all
    moreover have "magnitudeBC = Num 0"
      unfolding magnitudeBC_def using z by simp
    ultimately show ?thesis
      using js_mul_zero(2) by simp
  qed
  then have "js_div dotProduct (js_mul magnitudeBA magnitudeBC) = NaN"
    by (intro js_div_zero) simp_all
  then show ?thesis
    unfolding calculateAngle_def Let_def fst_conv snd_conv
      ux_def [symmetric] uy_def [symmetric] vx_def [symmetric] vy_def [symmetric]
      dotProduct_def [symmetric] magnitudeBA_def [symmetric] magnitudeBC_def [symmetric]
    by (simp only: degrees_of_NaN)
qed

lemma calculateAngle_values:
  "calculateAngle (0, 1/2) (1/2, 1/2) (0, 1/2) = Num 180"
  "calculateAngle (0, 1/2) (1/2, 1/2) (1/2, 1) = Num 90"
  "calculateAngle (1/2, 0) (1/2, 1/2) (1/2, 1) = Num 0"
  "calculateAngle (1/2, 1/2) (1/2, 1/2) (1/2, 1) = NaN"
  "calculateAngle (0, 0) (0, 1/2) (1/2, 1/2) = Num 90"
  "calculateAngle (0, 0) (1/2, 0) (1/2, 1/2) = Num 90"
  "calculateAngle (0, 0) (1/2, 1/2) (1/2, 1/2) = NaN"
  "calculateAngle (1, 1) (1/2, 1) (1/2, 1/2) = Num 90"
proof -
  show "calculateAngle (1/2, 1/2) (1/2, 1/2) (1/2, 1) = NaN"
    "calculateAngle (0, 0) (1/2, 1/2) (1/2, 1/2) = NaN"
    by (rule calculateAngle_degenerate; simp)+
  show "calculateAngle (0, 1/2) (1/2, 1/2) (0, 1/2) = Num 180"
    "calculateAngle (0, 1/2) (1/2, 1/2) (1/2, 1) = Num 90"
    "calculateAngle (1/2, 0) (1/2, 1/2) (1/2, 1) = Num 0"
    "calculateAngle (0, 0) (0, 1/2) (1/2, 1/2) = Num 90"
    "calculateAngle (0, 0) (1/2, 0) (1/2, 1/2) = Num 90"
    "calculateAngle (1, 1) (1/2, 1) (1/2, 1/2) = Num 90"
    by (simp_all add: calculateAngle_def Let_def fl_values real_sqrt_divide
        degrees_of_cosine_one degrees_of_cosine_zero degrees_of_cosine_minus_one)
qed

text \<open>The right angle of the fourth scenario of the specification.\<close>

lemma calculateAngle_right_angle: "calculateAngle (0, 0) (1, 0) (1, 1) = Num 90"
  by (simp add: calculateAngle_def Let_def fl_values degrees_of_cosine_zero)

text \<open>
  Claim C8. For points \<open>a\<close>, \<open>b\<close>, \<open>c\<close> with \<open>b\<close> distinct from \<open>a\<close> and from \<open>c\<close>,
  \<open>calculateAngle a b c\<close> is 180 minus the interior angle at \<open>b\<close> in degrees, rounded to
  the nearest integer. It fails for \<open>a\<close> and \<open>c\<close> at the distance \<open>tinyCoordinate\<close> from
  \<open>b\<close> on the two axes: the interior angle is a right angle, whose exterior angle is 90
  degrees, and the source returns \<open>NaN\<close>, because the squares underflow to zero, both
  lengths are zero, and the quotient is \<open>0 / 0\<close>.
\<close>

theorem calculateAngle_underflow_NaN:
  "(0::real, 0::real) \<noteq> (tinyCoordinate, 0) \<and> (0::real, 0::real) \<noteq> (0, tinyCoordinate) \<and>
   interiorAngle (tinyCoordinate, 0) (0, 0) (0, tinyCoordinate) (pi / 2) \<and>
   exteriorDegrees (pi / 2) = 90 \<and>
   calculateAngle (tinyCoordinate, 0) (0, 0) (0, tinyCoordinate) = NaN"
proof -
  have "calculateAngle (tinyCoordinate, 0) (0, 0) (0, tinyCoordinate) = NaN"
    by (simp add: calculateAngle_def Let_def fl_tiny)
  moreover have "interiorAngle (tinyCoordinate, 0) (0, 0) (0, tinyCoordinate) (pi / 2)"
    by (simp add: interiorAngle_def)
  moreover have "exteriorDegrees (pi / 2) = 90"
    by (simp add: exteriorDegrees_def)
  ultimately show ?thesis
    by (simp add: fl_tiny)
qed

text \<open>
  Claim C2. A call of \<open>calculateAngle\<close> in which a joint vector has length zero does not
  produce \<open>NaN\<close>. The source has no special case for it, and returns \<open>NaN\<close>: here with
  \<open>a = b\<close>, and with \<open>c = b\<close>.
\<close>

theorem calculateAngle_coincident_NaN:
  "calculateAngle (0, 0) (0, 0) (1, 1) = NaN \<and> calculateAngle (0, 0) (1, 1) (1, 1) = NaN"
  by (simp add: calculateAngle_degenerate)

section \<open>The steps of \<open>analyzeSquat\<close>\<close>

text \<open>The two thresholds exclude each other: no angle starts and completes a descent.\<close>

lemma not_above_85_and_below_30: "js_gt k (Num 85) \<Longrightarrow> \<not> js_lt k (Num 30)"
  by (cases k) (simp_all add: js_gt_def)

subsection \<open>showAngles\<close>

lemma showAngles_other [simp]:
  "squatCounter (showAngles k h e app) = squatCounter app"
  "squatStage (showAngles k h e app) = squatStage app"
  "warningMessages (showAngles k h e app) = warningMessages app"
  "squatState (showAngles k h e app) = squatState app"
  "pendingTimers (showAngles k h e app) = pendingTimers app"
  "nextTimerId (showAngles k h e app) = nextTimerId app"
  "renderedDisplayAngles (showAngles k h e app) = renderedDisplayAngles app"
  "showingLastRep (displayAngles (showAngles k h e app)) =
     (showingLastRep (renderedDisplayAngles app) \<and> showingLastRep (displayAngles app))"
  by (simp_all add: showAngles_def Let_def)

lemma showAngles_frozen:
  "showingLastRep (renderedDisplayAngles app) \<Longrightarrow>
     displayAngles (showAngles k h e app) = displayAngles app"
  by (simp add: showAngles_def Let_def)

subsection \<open>startDescent\<close>

lemma startDescent_other [simp]:
  "squatCounter (startDescent k h e app) = squatCounter app"
  "warningMessages (startDescent k h e app) = warningMessages app"
  "displayAngles (startDescent k h e app) = displayAngles app"
  "pendingTimers (startDescent k h e app) = pendingTimers app"
  "nextTimerId (startDescent k h e app) = nextTimerId app"
  "renderedDisplayAngles (startDescent k h e app) = renderedDisplayAngles app"
  by (simp_all add: startDescent_def Let_def)

lemma startDescent_state [simp]:
  "descending (squatState (startDescent k h e app)) =
     (descending (squatState app) \<or> js_gt k (Num 85))"
  "depthWarningGiven (squatState (startDescent k h e app)) = depthWarningGiven (squatState app)"
  "lastWarningTime (squatState (startDescent k h e app)) = lastWarningTime (squatState app)"
  "angleDisplayTimer (squatState (startDescent k h e app)) = angleDisplayTimer (squatState app)"
  "maxKneeAngle (squatState (startDescent k h e app)) =
     (if js_gt k (Num 85) \<and> \<not> descending (squatState app) then k
      else maxKneeAngle (squatState app))"
  "minKneeAngle (squatState (startDescent k h e app)) =
     (if js_gt k (Num 85) \<and> \<not> descending (squatState app) then k
      else minKneeAngle (squatState app))"
  by (auto simp add: startDescent_def Let_def)

subsection \<open>trackAngles\<close>

lemma trackAngles_other [simp]:
  "squatCounter (trackAngles k h e x app) = squatCounter app"
  "warningMessages (trackAngles k h e x app) = warningMessages app"
  "displayAngles (trackAngles k h e x app) = displayAngles app"
  "pendingTimers (trackAngles k h e x app) = pendingTimers app"
  "nextTimerId (trackAngles k h e x app) = nextTimerId app"
  "renderedDisplayAngles (trackAngles k h e x app) = renderedDisplayAngles app"
  by (simp_all add: trackAngles_def Let_def)

lemma trackAngles_state [simp]:
  "descending (squatState (trackAngles k h e x app)) = descending (squatState app)"
  "depthWarningGiven (squatState (trackAngles k h e x app)) = depthWarningGiven (squatState app)"
  "lastWarningTime (squatState (trackAngles k h e x app)) = lastWarningTime (squatState app)"
  "angleDisplayTimer (squatState (trackAngles k h e x app)) = angleDisplayTimer (squatState app)"
  "maxKneeAngle (squatState (trackAngles k h e x app)) =
     (if descending (squatState app) then js_max (maxKneeAngle (squatState app)) k
      else maxKneeAngle (squatState app))"
  "minKneeAngle (squatState (trackAngles k h e x app)) =
     (if descending (squatState app) then js_min (minKneeAngle (squatState app)) k
      else minKneeAngle (squatState app))"
  by (simp_all add: trackAngles_def Let_def)

subsection \<open>depthCheck\<close>

lemma depthCheck_fst:
  "\<not> depthWarningGiven state \<Longrightarrow> fst (depthCheck state) = depthWarningFor (maxKneeAngle state)"
  by (simp add: depthCheck_def depthWarningFor_def)

lemma depthCheck_snd [simp]:
  "lastWarningTime (snd (depthCheck state)) = lastWarningTime state"
  "angleDisplayTimer (snd (depthCheck state)) = angleDisplayTimer state"
  by (simp_all add: depthCheck_def)

subsection \<open>completeRep\<close>

lemma completeRep_skip:
  "\<not> (js_lt k (Num 30) \<and> descending (squatState app)) \<Longrightarrow> completeRep k h e t app = app"
  unfolding completeRep_def Let_def by (simp only: if_False)

lemma completeRep_rendered [simp]:
  "renderedDisplayAngles (completeRep k h e t app) = renderedDisplayAngles app"
  by (simp add: completeRep_def Let_def setTimeout_def clearTimeout_def case_prod_beta
      split: option.split)

lemma completeRep_counter:
  "js_lt k (Num 30) \<Longrightarrow> descending (squatState app) \<Longrightarrow>
     squatCounter (completeRep k h e t app) = squatCounter app + 1"
  by (simp add: completeRep_def Let_def setTimeout_def clearTimeout_def case_prod_beta split: option.split)

lemma completeRep_display:
  "js_lt k (Num 30) \<Longrightarrow> descending (squatState app) \<Longrightarrow>
     displayAngles (completeRep k h e t app) =
       \<lparr>disp_kneeAngle = k, disp_hipAngle = h, disp_heelAngle = e,
        disp_minKneeAngle = minKneeAngle (squatState app),
        disp_minHipAngle = minHipAngle (squatState app),
        disp_maxKneeAngle = maxKneeAngle (squatState app),
        disp_maxHipAngle = maxHipAngle (squatState app),
        disp_maxHeelAngle = maxHeelAngle (squatState app), showingLastRep = True,
        disp_hipAnkleDiff = Num 0,
        disp_minHipAnkleDiff = minHipAnkleDiff (squatState app)\<rparr>"
  by (simp add: completeRep_def Let_def setTimeout_def clearTimeout_def case_prod_beta split: option.split)

lemma completeRep_timers:
  "js_lt k (Num 30) \<Longrightarrow> descending (squatState app) \<Longrightarrow>
     pendingTimers (completeRep k h e t app) =
       (case angleDisplayTimer (squatState app) of
          Some old \<Rightarrow> filter (\<lambda>p. fst p \<noteq> old) (pendingTimers app)
        | None \<Rightarrow> pendingTimers app) @ [(nextTimerId app, t + 3000)]"
  "js_lt k (Num 30) \<Longrightarrow> descending (squatState app) \<Longrightarrow>
     angleDisplayTimer (squatState (completeRep k h e t app)) = Some (nextTimerId app)"
  "js_lt k (Num 30) \<Longrightarrow> descending (squatState app) \<Longrightarrow>
     nextTimerId (completeRep k h e t app) = nextTimerId app + 1"
  by (simp_all add: completeRep_def Let_def setTimeout_def clearTimeout_def resetSquatRep_def
      case_prod_beta split: option.split)

lemma completeRep_state:
  "js_lt k (Num 30) \<Longrightarrow> descending (squatState app) \<Longrightarrow>
     descending (squatState (completeRep k h e t app)) = False"
  "js_lt k (Num 30) \<Longrightarrow> descending (squatState app) \<Longrightarrow>
     depthWarningGiven (squatState (completeRep k h e t app)) = False"
  "js_lt k (Num 30) \<Longrightarrow> descending (squatState app) \<Longrightarrow>
     maxKneeAngle (squatState (completeRep k h e t app)) = Num 0"
  "js_lt k (Num 30) \<Longrightarrow> descending (squatState app) \<Longrightarrow>
     minKneeAngle (squatState (completeRep k h e t app)) = Num 360"
  by (simp_all add: completeRep_def Let_def setTimeout_def clearTimeout_def resetSquatRep_def
      case_prod_beta split: option.split)

lemma completeRep_warnings:
  "js_lt k (Num 30) \<Longrightarrow> descending (squatState app) \<Longrightarrow>
   \<not> depthWarningGiven (squatState app) \<Longrightarrow>
     warningMessages (completeRep k h e t app) =
       (if depthWarningFor (maxKneeAngle (squatState app)) \<noteq> []
        then depthWarningFor (maxKneeAngle (squatState app)) else warningMessages app)"
  "js_lt k (Num 30) \<Longrightarrow> descending (squatState app) \<Longrightarrow>
   \<not> depthWarningGiven (squatState app) \<Longrightarrow>
     lastWarningTime (squatState (completeRep k h e t app)) =
       (if depthWarningFor (maxKneeAngle (squatState app)) \<noteq> []
        then t else lastWarningTime (squatState app))"
  by (simp_all add: completeRep_def Let_def setTimeout_def clearTimeout_def resetSquatRep_def
      depthCheck_fst case_prod_beta split: option.split)


subsection \<open>clearWarnings\<close>

lemma clearWarnings_other [simp]:
  "squatCounter (clearWarnings t app) = squatCounter app"
  "displayAngles (clearWarnings t app) = displayAngles app"
  "squatState (clearWarnings t app) = squatState app"
  "pendingTimers (clearWarnings t app) = pendingTimers app"
  "nextTimerId (clearWarnings t app) = nextTimerId app"
  "renderedDisplayAngles (clearWarnings t app) = renderedDisplayAngles app"
  by (simp_all add: clearWarnings_def)

lemma clearWarnings_messages:
  "warningMessages (clearWarnings t app) =
     (if t - lastWarningTime (squatState app) > 2000 then [] else warningMessages app)"
  by (simp add: clearWarnings_def)

subsection \<open>analyzeAngles\<close>

lemma tracked_descending:
  "js_lt k (Num 30) \<and>
   descending (squatState (trackAngles k h e x (startDescent k h e (showAngles k h e app)))) \<longleftrightarrow>
   js_lt k (Num 30) \<and> descending (squatState app)"
  using not_above_85_and_below_30 [of k] by auto

lemma analyzeAngles_idle:
  assumes "\<not> (js_lt k (Num 30) \<and> descending (squatState app))"
  shows "analyzeAngles k h e x t app =
     clearWarnings t (trackAngles k h e x (startDescent k h e (showAngles k h e app)))"
proof -
  let ?T = "trackAngles k h e x (startDescent k h e (showAngles k h e app))"
  have "\<not> (js_lt k (Num 30) \<and> descending (squatState ?T))"
    using assms tracked_descending by blast
  then have "completeRep k h e t ?T = ?T"
    by (rule completeRep_skip)
  then show ?thesis
    by (simp add: analyzeAngles_def)
qed

lemma analyzeAngles_rendered [simp]:
  "renderedDisplayAngles (analyzeAngles k h e x t app) = renderedDisplayAngles app"
  by (simp add: analyzeAngles_def)

lemma analyzeAngles_idle_fields:
  assumes "\<not> (js_lt k (Num 30) \<and> descending (squatState app))"
  shows "squatCounter (analyzeAngles k h e x t app) = squatCounter app"
    and "pendingTimers (analyzeAngles k h e x t app) = pendingTimers app"
    and "nextTimerId (analyzeAngles k h e x t app) = nextTimerId app"
    and "angleDisplayTimer (squatState (analyzeAngles k h e x t app)) =
           angleDisplayTimer (squatState app)"
    and "lastWarningTime (squatState (analyzeAngles k h e x t app)) =
           lastWarningTime (squatState app)"
    and "depthWarningGiven (squatState (analyzeAngles k h e x t app)) =
           depthWarningGiven (squatState app)"
    and "descending (squatState (analyzeAngles k h e x t app)) =
           (descending (squatState app) \<or> js_gt k (Num 85))"
    and "showingLastRep (displayAngles (analyzeAngles k h e x t app)) =
           (showingLastRep (renderedDisplayAngles app) \<and> showingLastRep (displayAngles app))"
    and "warningMessages (analyzeAngles k h e x t app) =
           (if t - lastWarningTime (squatState app) > 2000 then [] else warningMessages app)"
  by (simp_all add: analyzeAngles_idle [OF assms] clearWarnings_messages)

lemma analyzeAngles_idle_frozen:
  assumes "\<not> (js_lt k (Num 30) \<and> descending (squatState app))"
    and "showingLastRep (renderedDisplayAngles app)"
  shows "displayAngles (analyzeAngles k h e x t app) = displayAngles app"
  by (simp add: analyzeAngles_idle [OF assms(1)] showAngles_frozen [OF assms(2)])

lemma analyzeAngles_complete_fields:
  assumes "js_lt k (Num 30)" and "descending (squatState app)"
  shows "squatCounter (analyzeAngles k h e x t app) = squatCounter app + 1"
    and "descending (squatState (analyzeAngles k h e x t app)) = False"
    and "depthWarningGiven (squatState (analyzeAngles k h e x t app)) = False"
    and "showingLastRep (displayAngles (analyzeAngles k h e x t app)) = True"
    and "disp_maxKneeAngle (displayAngles (analyzeAngles k h e x t app)) =
           js_max (maxKneeAngle (squatState app)) k"
    and "disp_minKneeAngle (displayAngles (analyzeAngles k h e x t app)) =
           js_min (minKneeAngle (squatState app)) k"
    and "pendingTimers (analyzeAngles k h e x t app) =
           (case angleDisplayTimer (squatState app) of
              Some old \<Rightarrow> filter (\<lambda>p. fst p \<noteq> old) (pendingTimers app)
            | None \<Rightarrow> pendingTimers app) @ [(nextTimerId app, t + 3000)]"
    and "angleDisplayTimer (squatState (analyzeAngles k h e x t app)) = Some (nextTimerId app)"
    and "nextTimerId (analyzeAngles k h e x t app) = nextTimerId app + 1"
proof -
  let ?T = "trackAngles k h e x (startDescent k h e (showAngles k h e app))"
  have c: "js_lt k (Num 30)" "descending (squatState ?T)"
    using assms by simp_all
  show "squatCounter (analyzeAngles k h e x t app) = squatCounter app + 1"
    unfolding analyzeAngles_def by (simp add: completeRep_counter [OF c])
  show "descending (squatState (analyzeAngles k h e x t app)) = False"
    unfolding analyzeAngles_def by (simp add: completeRep_state [OF c])
  show "depthWarningGiven (squatState (analyzeAngles k h e x t app)) = False"
    unfolding analyzeAngles_def by (simp add: completeRep_state [OF c])
  show "showingLastRep (displayAngles (analyzeAngles k h e x t app)) = True"
    unfolding analyzeAngles_def by (simp add: completeRep_display [OF c])
  show "disp_maxKneeAngle (displayAngles (analyzeAngles k h e x t app)) =
           js_max (maxKneeAngle (squatState app)) k"
    unfolding analyzeAngles_def using assms by (simp add: completeRep_display [OF c])
  show "disp_minKneeAngle (displayAngles (analyzeAngles k h e x t app)) =
           js_min (minKneeAngle (squatState app)) k"
    unfolding analyzeAngles_def using assms by (simp add: completeRep_display [OF c])
  show "pendingTimers (analyzeAngles k h e x t app) =
           (case angleDisplayTimer (squatState app) of
              Some old \<Rightarrow> filter (\<lambda>p. fst p \<noteq> old) (pendingTimers app)
            | None \<Rightarrow> pendingTimers app) @ [(nextTimerId app, t + 3000)]"
    unfolding analyzeAngles_def by (simp add: completeRep_timers [OF c] split: option.split)
  show "angleDisplayTimer (squatState (analyzeAngles k h e x t app)) = Some (nextTimerId app)"
    unfolding analyzeAngles_def by (simp add: completeRep_timers [OF c])
  show "nextTimerId (analyzeAngles k h e x t app) = nextTimerId app + 1"
    unfolding analyzeAngles_def by (simp add: completeRep_timers [OF c])
qed

lemma analyzeAngles_complete_warnings:
  fixes k h e x :: jsnum and t :: int and app :: analyzer
  assumes "js_lt k (Num 30)" and "descending (squatState app)"
    and "\<not> depthWarningGiven (squatState app)"
  defines "w \<equiv> depthWarningFor (disp_maxKneeAngle (displayAngles (analyzeAngles k h e x t app)))"
  shows "warningMessages (analyzeAngles k h e x t app) =
           (if w \<noteq> [] then w
            else if t - lastWarningTime (squatState app) > 2000 then []
            else warningMessages app)"
    and "lastWarningTime (squatState (analyzeAngles k h e x t app)) =
           (if w \<noteq> [] then t else lastWarningTime (squatState app))"
proof -
  let ?T = "trackAngles k h e x (startDescent k h e (showAngles k h e app))"
  have c: "js_lt k (Num 30)" "descending (squatState ?T)" "\<not> depthWarningGiven (squatState ?T)"
    using assms by simp_all
  have w: "w = depthWarningFor (maxKneeAngle (squatState ?T))"
    unfolding w_def using assms(1,2)
    by (simp add: analyzeAngles_complete_fields(5) [OF assms(1,2)])
  show "lastWarningTime (squatState (analyzeAngles k h e x t app)) =
           (if w \<noteq> [] then t else lastWarningTime (squatState app))"
    unfolding analyzeAngles_def w by (simp add: completeRep_warnings [OF c])
  then show "warningMessages (analyzeAngles k h e x t app) =
           (if w \<noteq> [] then w
            else if t - lastWarningTime (squatState app) > 2000 then []
            else warningMessages app)"
    unfolding analyzeAngles_def w
    by (simp add: clearWarnings_messages completeRep_warnings [OF c])
qed

section \<open>Frames: from landmarks to angles\<close>

lemma analyzeSquat_absent:
  "requiredLandmarks lms = None \<Longrightarrow> analyzeSquat lms t app = app"
  by (simp add: analyzeSquat_def)

lemma analyzeSquat_rendered [simp]:
  "renderedDisplayAngles (analyzeSquat lms t app) = renderedDisplayAngles app"
  by (simp add: analyzeSquat_def split: option.split)

lemma liveKneeAngle_absent:
  "requiredLandmarks lms = None \<longleftrightarrow> liveKneeAngle lms = None"
  by (simp add: liveKneeAngle_def split: option.split)

lemma analyzeSquat_present:
  assumes "liveKneeAngle lms = Some k"
  obtains h e x where "analyzeSquat lms t app = analyzeAngles k h e x t app"
  using assms by (auto simp add: analyzeSquat_def liveKneeAngle_def split: option.splits)

lemma requiredLandmarks_missing:
  assumes "i \<in> {RIGHT_SHOULDER, RIGHT_HIP, RIGHT_KNEE, RIGHT_ANKLE, RIGHT_FOOT_INDEX, RIGHT_HEEL}"
    and "lookupLandmark lms i = None"
  shows "requiredLandmarks lms = None"
  using assms by (auto simp add: requiredLandmarks_def split: option.split)

lemma processFrames_append:
  "processFrames (fs @ gs) app = processFrames gs (processFrames fs app)"
  by (induction fs arbitrary: app) simp_all

section \<open>Counting repetitions\<close>

lemma analyzeSquat_counter:
  "squatCounter (analyzeSquat lms t app) =
     squatCounter app +
       (if descending (squatState app) \<and> \<not> descending (squatState (analyzeSquat lms t app))
        then 1 else 0)"
proof (cases "liveKneeAngle lms")
  case None
  then show ?thesis
    by (simp add: analyzeSquat_absent liveKneeAngle_absent)
next
  case (Some k)
  then obtain h e x where eq: "analyzeSquat lms t app = analyzeAngles k h e x t app"
    by (rule analyzeSquat_present)
  show ?thesis
  proof (cases "js_lt k (Num 30) \<and> descending (squatState app)")
    case True
    then show ?thesis
      by (simp add: eq analyzeAngles_complete_fields)
  next
    case False
    then show ?thesis
      by (auto simp add: eq analyzeAngles_idle_fields)
  qed
qed

lemma analyzeSquat_transition:
  "(descending (squatState app) \<and> \<not> descending (squatState (analyzeSquat lms t app))) =
   (\<exists>k. liveKneeAngle lms = Some k \<and> js_lt k (Num 30) \<and> descending (squatState app))"
proof (cases "liveKneeAngle lms")
  case None
  then show ?thesis
    by (simp add: analyzeSquat_absent liveKneeAngle_absent)
next
  case (Some k)
  then obtain h e x where eq: "analyzeSquat lms t app = analyzeAngles k h e x t app"
    by (rule analyzeSquat_present)
  show ?thesis
  proof (cases "js_lt k (Num 30) \<and> descending (squatState app)")
    case True
    then show ?thesis
      by (simp add: eq Some analyzeAngles_complete_fields)
  next
    case False
    then show ?thesis
      by (auto simp add: eq Some analyzeAngles_idle_fields)
  qed
qed

lemma processFrames_counter:
  "squatCounter (processFrames fs app) = squatCounter app + completedTransitions fs app"
proof (induction fs arbitrary: app)
  case Nil
  show ?case by simp
next
  case (Cons f fs)
  have "squatCounter (processFrames (f # fs) app) =
      squatCounter (analyzeSquat (fst f) (snd f) app) +
      completedTransitions fs (analyzeSquat (fst f) (snd f) app)"
    by (simp add: Cons.IH)
  also have "\<dots> = squatCounter app + completedTransitions (f # fs) app"
    by (simp add: analyzeSquat_counter [of "fst f" "snd f" app] Let_def)
  finally show ?case .
qed


section \<open>Evaluating frames\<close>

lemma requiredLandmarks_frameOf:
  "requiredLandmarks (frameOf s h k a he f) =
     Some (\<lparr>lm_x = fst s, lm_y = snd s\<rparr>, \<lparr>lm_x = fst h, lm_y = snd h\<rparr>,
           \<lparr>lm_x = fst k, lm_y = snd k\<rparr>, \<lparr>lm_x = fst a, lm_y = snd a\<rparr>,
           \<lparr>lm_x = fst f, lm_y = snd f\<rparr>, \<lparr>lm_x = fst he, lm_y = snd he\<rparr>)"
  by (simp add: requiredLandmarks_def frameOf_def lookupLandmark_def RIGHT_SHOULDER_def
      RIGHT_HIP_def RIGHT_KNEE_def RIGHT_ANKLE_def RIGHT_HEEL_def RIGHT_FOOT_INDEX_def)

lemma analyzeSquat_frameOf:
  "analyzeSquat (frameOf s h k a he f) t app =
     analyzeAngles (calculateAngle h k a) (calculateAngle s h k) (calculateAngle f he k)
       (Num (fst k)) t app"
  by (simp add: analyzeSquat_def requiredLandmarks_frameOf coords_def)

lemma liveKneeAngle_frameOf:
  "liveKneeAngle (frameOf s h k a he f) = Some (calculateAngle h k a)"
  by (simp add: liveKneeAngle_def requiredLandmarks_frameOf coords_def)

lemma analyzeSquat_frames:
  "analyzeSquat deepFrame t app = analyzeAngles (Num 180) (Num 90) (Num 90) (Num (1/2)) t app"
  "analyzeSquat bentFrame t app = analyzeAngles (Num 90) (Num 90) (Num 90) (Num (1/2)) t app"
  "analyzeSquat standingFrame t app = analyzeAngles (Num 0) (Num 90) (Num 90) (Num (1/2)) t app"
  "analyzeSquat collapsedFrame t app = analyzeAngles NaN NaN (Num 90) (Num (1/2)) t app"
  by (simp_all add: deepFrame_def bentFrame_def standingFrame_def collapsedFrame_def
      analyzeSquat_frameOf calculateAngle_values)

lemma analyzeAngles_eval:
  "squatCounter (analyzeAngles k h e x t app) =
     squatCounter app + (if js_lt k (Num 30) \<and> descending (squatState app) then 1 else 0)"
  "descending (squatState (analyzeAngles k h e x t app)) =
     (if js_lt k (Num 30) \<and> descending (squatState app) then False
      else descending (squatState app) \<or> js_gt k (Num 85))"
  "depthWarningGiven (squatState (analyzeAngles k h e x t app)) =
     (if js_lt k (Num 30) \<and> descending (squatState app) then False
      else depthWarningGiven (squatState app))"
  "showingLastRep (displayAngles (analyzeAngles k h e x t app)) =
     (if js_lt k (Num 30) \<and> descending (squatState app) then True
      else showingLastRep (renderedDisplayAngles app) \<and> showingLastRep (displayAngles app))"
proof -
  show "squatCounter (analyzeAngles k h e x t app) =
     squatCounter app + (if js_lt k (Num 30) \<and> descending (squatState app) then 1 else 0)"
    by (cases "js_lt k (Num 30) \<and> descending (squatState app)")
      (simp_all only: analyzeAngles_complete_fields analyzeAngles_idle_fields if_True if_False
        simp_thms add_0_right)
  show "descending (squatState (analyzeAngles k h e x t app)) =
     (if js_lt k (Num 30) \<and> descending (squatState app) then False
      else descending (squatState app) \<or> js_gt k (Num 85))"
    by (cases "js_lt k (Num 30) \<and> descending (squatState app)")
      (simp_all only: analyzeAngles_complete_fields analyzeAngles_idle_fields if_True if_False
        simp_thms)
  show "depthWarningGiven (squatState (analyzeAngles k h e x t app)) =
     (if js_lt k (Num 30) \<and> descending (squatState app) then False
      else depthWarningGiven (squatState app))"
    by (cases "js_lt k (Num 30) \<and> descending (squatState app)")
      (simp_all only: analyzeAngles_complete_fields analyzeAngles_idle_fields if_True if_False
        simp_thms)
  show "showingLastRep (displayAngles (analyzeAngles k h e x t app)) =
     (if js_lt k (Num 30) \<and> descending (squatState app) then True
      else showingLastRep (renderedDisplayAngles app) \<and> showingLastRep (displayAngles app))"
    by (cases "js_lt k (Num 30) \<and> descending (squatState app)")
      (simp_all only: analyzeAngles_complete_fields analyzeAngles_idle_fields if_True if_False
        simp_thms)
qed

lemma analyzeAngles_eval_extrema:
  "maxKneeAngle (squatState (analyzeAngles k h e x t app)) =
     (if js_lt k (Num 30) \<and> descending (squatState app) then Num 0
      else if descending (squatState app) then js_max (maxKneeAngle (squatState app)) k
      else if js_gt k (Num 85) then js_max k k
      else maxKneeAngle (squatState app))"
  "minKneeAngle (squatState (analyzeAngles k h e x t app)) =
     (if js_lt k (Num 30) \<and> descending (squatState app) then Num 360
      else if descending (squatState app) then js_min (minKneeAngle (squatState app)) k
      else if js_gt k (Num 85) then js_min k k
      else minKneeAngle (squatState app))"
proof -
  let ?T = "trackAngles k h e x (startDescent k h e (showAngles k h e app))"
  show "maxKneeAngle (squatState (analyzeAngles k h e x t app)) =
     (if js_lt k (Num 30) \<and> descending (squatState app) then Num 0
      else if descending (squatState app) then js_max (maxKneeAngle (squatState app)) k
      else if js_gt k (Num 85) then js_max k k
      else maxKneeAngle (squatState app))"
  proof (cases "js_lt k (Num 30) \<and> descending (squatState app)")
    case True
    then have "js_lt k (Num 30)" "descending (squatState ?T)" by simp_all
    then show ?thesis
      using True unfolding analyzeAngles_def by (simp add: completeRep_state)
  next
    case False
    have "analyzeAngles k h e x t app = clearWarnings t ?T"
      using False by (rule analyzeAngles_idle)
    then show ?thesis
      using False by auto
  qed
  show "minKneeAngle (squatState (analyzeAngles k h e x t app)) =
     (if js_lt k (Num 30) \<and> descending (squatState app) then Num 360
      else if descending (squatState app) then js_min (minKneeAngle (squatState app)) k
      else if js_gt k (Num 85) then js_min k k
      else minKneeAngle (squatState app))"
  proof (cases "js_lt k (Num 30) \<and> descending (squatState app)")
    case True
    then have "js_lt k (Num 30)" "descending (squatState ?T)" by simp_all
    then show ?thesis
      using True unfolding analyzeAngles_def by (simp add: completeRep_state)
  next
    case False
    have "analyzeAngles k h e x t app = clearWarnings t ?T"
      using False by (rule analyzeAngles_idle)
    then show ?thesis
      using False by auto
  qed
qed

lemma initial_fields:
  "squatCounter initialAnalyzer = 0"
  "warningMessages initialAnalyzer = []"
  "pendingTimers initialAnalyzer = []"
  "nextTimerId initialAnalyzer = 1"
  "descending (squatState initialAnalyzer) = False"
  "depthWarningGiven (squatState initialAnalyzer) = False"
  "lastWarningTime (squatState initialAnalyzer) = 0"
  "angleDisplayTimer (squatState initialAnalyzer) = None"
  "maxKneeAngle (squatState initialAnalyzer) = Num 0"
  "minKneeAngle (squatState initialAnalyzer) = Num 360"
  "showingLastRep (displayAngles initialAnalyzer) = False"
  "showingLastRep (renderedDisplayAngles initialAnalyzer) = False"
  by (simp_all add: initialAnalyzer_def initialSquatState_def initialDisplayAngles_def)



section \<open>The concrete session\<close>

lemma afterDescent_eq:
  "afterDescent = analyzeAngles (Num 180) (Num 90) (Num 90) (Num (1/2)) 0 initialAnalyzer"
  by (simp add: afterDescent_def analyzeSquat_frames)

lemma afterDescent_fields:
  "squatCounter afterDescent = 0"
  "descending (squatState afterDescent)"
  "\<not> depthWarningGiven (squatState afterDescent)"
  "maxKneeAngle (squatState afterDescent) = Num 180"
  "minKneeAngle (squatState afterDescent) = Num 180"
  "warningMessages afterDescent = []"
  "lastWarningTime (squatState afterDescent) = 0"
  "pendingTimers afterDescent = []"
  "angleDisplayTimer (squatState afterDescent) = None"
  "nextTimerId afterDescent = 1"
  "\<not> showingLastRep (displayAngles afterDescent)"
  by (simp_all add: afterDescent_eq analyzeAngles_eval analyzeAngles_eval_extrema
      analyzeAngles_idle_fields initial_fields js_gt_def)

text \<open>React does not render during the session: its closures are those of the start.\<close>

lemma session_rendered:
  "\<not> showingLastRep (renderedDisplayAngles afterDescent)"
  "\<not> showingLastRep (renderedDisplayAngles afterFirstRep)"
  "\<not> showingLastRep (renderedDisplayAngles afterSecondDescent)"
  by (simp_all add: afterDescent_def afterFirstRep_def afterSecondDescent_def initial_fields)

lemma afterFirstRep_eq:
  "afterFirstRep = analyzeAngles (Num 0) (Num 90) (Num 90) (Num (1/2)) 100 afterDescent"
  by (simp add: afterFirstRep_def analyzeSquat_frames)

lemma afterFirstRep_fields:
  "squatCounter afterFirstRep = 1"
  "\<not> descending (squatState afterFirstRep)"
  "\<not> depthWarningGiven (squatState afterFirstRep)"
  "showingLastRep (displayAngles afterFirstRep)"
  "disp_maxKneeAngle (displayAngles afterFirstRep) = Num 180"
  "disp_minKneeAngle (displayAngles afterFirstRep) = Num 0"
  "pendingTimers afterFirstRep = [(1, 3100)]"
  "angleDisplayTimer (squatState afterFirstRep) = Some 1"
  "nextTimerId afterFirstRep = 2"
  "warningMessages afterFirstRep = [''Too deep! Protect your knees'']"
  "lastWarningTime (squatState afterFirstRep) = 100"
proof -
  have c: "js_lt (Num 0) (Num 30)" "descending (squatState afterDescent)"
    by (simp_all add: afterDescent_fields)
  note f = analyzeAngles_complete_fields [OF c, of "Num 90" "Num 90" "Num (1/2)" 100,
      folded afterFirstRep_eq]
  show "squatCounter afterFirstRep = 1"
    "\<not> descending (squatState afterFirstRep)"
    "\<not> depthWarningGiven (squatState afterFirstRep)"
    "showingLastRep (displayAngles afterFirstRep)"
    "disp_maxKneeAngle (displayAngles afterFirstRep) = Num 180"
    "disp_minKneeAngle (displayAngles afterFirstRep) = Num 0"
    "pendingTimers afterFirstRep = [(1, 3100)]"
    "angleDisplayTimer (squatState afterFirstRep) = Some 1"
    "nextTimerId afterFirstRep = 2"
    by (simp_all add: f afterDescent_fields)
  note w = analyzeAngles_complete_warnings [OF c afterDescent_fields(3),
      of "Num 90" "Num 90" "Num (1/2)" 100, folded afterFirstRep_eq]
  show "warningMessages afterFirstRep = [''Too deep! Protect your knees'']"
    "lastWarningTime (squatState afterFirstRep) = 100"
    by (simp_all add: w f depthWarningFor_def js_gt_def afterDescent_fields)
qed

lemma afterSecondDescent_eq:
  "afterSecondDescent = analyzeAngles (Num 90) (Num 90) (Num 90) (Num (1/2)) 200 afterFirstRep"
  by (simp add: afterSecondDescent_def analyzeSquat_frames)

lemma afterSecondDescent_fields:
  "squatCounter afterSecondDescent = 1"
  "descending (squatState afterSecondDescent)"
  "\<not> depthWarningGiven (squatState afterSecondDescent)"
  "maxKneeAngle (squatState afterSecondDescent) = Num 90"
  "minKneeAngle (squatState afterSecondDescent) = Num 90"
  "warningMessages afterSecondDescent = [''Too deep! Protect your knees'']"
  "lastWarningTime (squatState afterSecondDescent) = 100"
  "pendingTimers afterSecondDescent = [(1, 3100)]"
  "angleDisplayTimer (squatState afterSecondDescent) = Some 1"
  "nextTimerId afterSecondDescent = 2"
  "\<not> showingLastRep (displayAngles afterSecondDescent)"
  by (simp_all add: afterSecondDescent_eq analyzeAngles_eval analyzeAngles_eval_extrema
      analyzeAngles_idle_fields afterFirstRep_fields session_rendered js_gt_def)

lemma afterSecondRep_eq:
  "afterSecondRep = analyzeAngles (Num 0) (Num 90) (Num 90) (Num (1/2)) 300 afterSecondDescent"
  by (simp add: afterSecondRep_def analyzeSquat_frames)

lemma afterSecondRep_fields:
  "squatCounter afterSecondRep = 2"
  "\<not> descending (squatState afterSecondRep)"
  "\<not> depthWarningGiven (squatState afterSecondRep)"
  "showingLastRep (displayAngles afterSecondRep)"
  "disp_maxKneeAngle (displayAngles afterSecondRep) = Num 90"
  "disp_minKneeAngle (displayAngles afterSecondRep) = Num 0"
  "pendingTimers afterSecondRep = [(2, 3300)]"
  "angleDisplayTimer (squatState afterSecondRep) = Some 2"
  "nextTimerId afterSecondRep = 3"
  "warningMessages afterSecondRep = [''Not deep enough! Go deeper'']"
  "lastWarningTime (squatState afterSecondRep) = 300"
proof -
  have c: "js_lt (Num 0) (Num 30)" "descending (squatState afterSecondDescent)"
    by (simp_all add: afterSecondDescent_fields)
  note f = analyzeAngles_complete_fields [OF c, of "Num 90" "Num 90" "Num (1/2)" 300,
      folded afterSecondRep_eq]
  show "squatCounter afterSecondRep = 2"
    "\<not> descending (squatState afterSecondRep)"
    "\<not> depthWarningGiven (squatState afterSecondRep)"
    "showingLastRep (displayAngles afterSecondRep)"
    "disp_maxKneeAngle (displayAngles afterSecondRep) = Num 90"
    "disp_minKneeAngle (displayAngles afterSecondRep) = Num 0"
    "pendingTimers afterSecondRep = [(2, 3300)]"
    "angleDisplayTimer (squatState afterSecondRep) = Some 2"
    "nextTimerId afterSecondRep = 3"
    by (simp_all add: f afterSecondDescent_fields)
  note w = analyzeAngles_complete_warnings [OF c afterSecondDescent_fields(3),
      of "Num 90" "Num 90" "Num (1/2)" 300, folded afterSecondRep_eq]
  show "warningMessages afterSecondRep = [''Not deep enough! Go deeper'']"
    "lastWarningTime (squatState afterSecondRep) = 300"
    by (simp_all add: w f depthWarningFor_def js_gt_def afterSecondDescent_fields)
qed

lemma session_as_frames:
  "processFrames [(deepFrame, 0), (standingFrame, 100), (bentFrame, 200), (standingFrame, 300)]
     initialAnalyzer = afterSecondRep"
  by (simp add: afterSecondRep_def afterSecondDescent_def afterFirstRep_def afterDescent_def)

lemma session_as_events:
  "runEvents [Frame deepFrame 0] initialAnalyzer = afterDescent"
  "runEvents [Frame deepFrame 0, Frame standingFrame 100] initialAnalyzer = afterFirstRep"
  "runEvents [Frame deepFrame 0, Frame standingFrame 100, Frame bentFrame 200] initialAnalyzer =
     afterSecondDescent"
  "runEvents [Frame deepFrame 0, Frame standingFrame 100, Frame bentFrame 200,
     Frame standingFrame 300] initialAnalyzer = afterSecondRep"
  by (simp_all add: afterSecondRep_def afterSecondDescent_def afterFirstRep_def afterDescent_def)


section \<open>Frames with a missing landmark\<close>

text \<open>
  Claim C6. A frame in which one of the six landmarks the analyser reads is absent is
  not processed: no knee angle is computed for it, the whole state of the analyser (the
  counter, the phase, the extrema and every other field) is the same after the frame as
  before, and a sequence of frames leads to the same state with the frame and without
  it, wherever the frame stands.
\<close>

theorem analyzeSquat_missing_landmark:
  assumes "i \<in> {RIGHT_SHOULDER, RIGHT_HIP, RIGHT_KNEE, RIGHT_ANKLE, RIGHT_FOOT_INDEX, RIGHT_HEEL}"
    and "lookupLandmark lms i = None"
  shows "liveKneeAngle lms = None \<and> analyzeSquat lms t app = app \<and>
     processFrames (before @ (lms, t) # after) app = processFrames (before @ after) app"
proof -
  have none: "requiredLandmarks lms = None"
    using assms by (rule requiredLandmarks_missing)
  then have same: "\<And>a. analyzeSquat lms t a = a"
    by (simp add: analyzeSquat_absent)
  have "processFrames (before @ (lms, t) # after) app =
      processFrames after (analyzeSquat lms t (processFrames before app))"
    by (simp add: processFrames_append)
  also have "\<dots> = processFrames (before @ after) app"
    by (simp add: same processFrames_append)
  finally show ?thesis
    using none same by (simp add: liveKneeAngle_def)
qed

text \<open>
  A bent frame whose knee landmark is absent, between the two frames of the first
  repetition of the session.
\<close>

theorem analyzeSquat_missing_landmark_witness:
  "RIGHT_KNEE \<in> {RIGHT_SHOULDER, RIGHT_HIP, RIGHT_KNEE, RIGHT_ANKLE, RIGHT_FOOT_INDEX, RIGHT_HEEL} \<and>
   lookupLandmark (bentFrame[RIGHT_KNEE := None]) RIGHT_KNEE = None \<and>
   analyzeSquat (bentFrame[RIGHT_KNEE := None]) 50 afterDescent = afterDescent \<and>
   processFrames [(deepFrame, 0), (bentFrame[RIGHT_KNEE := None], 50), (standingFrame, 100)]
     initialAnalyzer = afterFirstRep"
proof -
  have i: "RIGHT_KNEE \<in> {RIGHT_SHOULDER, RIGHT_HIP, RIGHT_KNEE, RIGHT_ANKLE, RIGHT_FOOT_INDEX, RIGHT_HEEL}"
    by simp
  have absent: "lookupLandmark (bentFrame[RIGHT_KNEE := None]) RIGHT_KNEE = None"
    by (simp add: lookupLandmark_def)
  have "analyzeSquat (bentFrame[RIGHT_KNEE := None]) 50 afterDescent = afterDescent"
    using analyzeSquat_missing_landmark [OF i absent] by simp
  moreover have "processFrames ([(deepFrame, 0)] @ (bentFrame[RIGHT_KNEE := None], 50) #
      [(standingFrame, 100)]) initialAnalyzer =
      processFrames ([(deepFrame, 0)] @ [(standingFrame, 100)]) initialAnalyzer"
    using analyzeSquat_missing_landmark [OF i absent] by simp
  then have "processFrames [(deepFrame, 0), (bentFrame[RIGHT_KNEE := None], 50),
      (standingFrame, 100)] initialAnalyzer = afterFirstRep"
    by (simp add: afterFirstRep_def afterDescent_def)
  ultimately show ?thesis
    using i absent by simp
qed

section \<open>The counter and the completed repetitions\<close>

text \<open>
  Claim C4. For every sequence of frames processed from the initial state, the counter
  is the number of frames over which the phase goes from descending to up; for every
  frame and every state, the counter grows by one over such a frame and is unchanged
  over any other; and the phase goes from descending to up exactly over the frames that
  yield a knee angle below 30 while the analyser is descending.
\<close>

theorem squatCounter_counts_transitions:
  "squatCounter (processFrames fs initialAnalyzer) = completedTransitions fs initialAnalyzer \<and>
   squatCounter (analyzeSquat lms t app) =
     squatCounter app +
       (if descending (squatState app) \<and> \<not> descending (squatState (analyzeSquat lms t app))
        then 1 else 0) \<and>
   ((descending (squatState app) \<and> \<not> descending (squatState (analyzeSquat lms t app))) =
    (\<exists>k. liveKneeAngle lms = Some k \<and> js_lt k (Num 30) \<and> descending (squatState app)))"
proof (intro conjI)
  show "squatCounter (processFrames fs initialAnalyzer) = completedTransitions fs initialAnalyzer"
    by (simp add: processFrames_counter initial_fields)
  show "squatCounter (analyzeSquat lms t app) =
     squatCounter app +
       (if descending (squatState app) \<and> \<not> descending (squatState (analyzeSquat lms t app))
        then 1 else 0)"
    by (rule analyzeSquat_counter)
  show "(descending (squatState app) \<and> \<not> descending (squatState (analyzeSquat lms t app))) =
    (\<exists>k. liveKneeAngle lms = Some k \<and> js_lt k (Num 30) \<and> descending (squatState app))"
    by (rule analyzeSquat_transition)
qed

text \<open>The session: two transitions over its four frames, and a counter of two.\<close>

theorem squatCounter_counts_transitions_witness:
  "completedTransitions
     [(deepFrame, 0), (standingFrame, 100), (bentFrame, 200), (standingFrame, 300)]
     initialAnalyzer = 2 \<and>
   squatCounter (processFrames
     [(deepFrame, 0), (standingFrame, 100), (bentFrame, 200), (standingFrame, 300)]
     initialAnalyzer) = 2 \<and>
   liveKneeAngle standingFrame = Some (Num 0) \<and> js_lt (Num 0) (Num 30) \<and>
   descending (squatState afterDescent) \<and> \<not> descending (squatState afterFirstRep)"
proof -
  let ?fs = "[(deepFrame, 0), (standingFrame, 100), (bentFrame, 200), (standingFrame, 300)]"
  have "squatCounter (processFrames ?fs initialAnalyzer) = 2"
    by (simp only: session_as_frames afterSecondRep_fields)
  moreover have "squatCounter (processFrames ?fs initialAnalyzer) =
      completedTransitions ?fs initialAnalyzer"
    using squatCounter_counts_transitions [of ?fs] by (rule conjunct1)
  moreover have "liveKneeAngle standingFrame = Some (Num 0)"
    by (simp add: standingFrame_def liveKneeAngle_frameOf calculateAngle_values)
  moreover have "(descending (squatState afterDescent) \<and> \<not> descending (squatState afterFirstRep))"
    by (simp add: afterDescent_fields afterFirstRep_fields)
  ultimately show ?thesis
    by simp
qed

section \<open>Resetting twice\<close>

lemma resetCounter_timer [simp]:
  "angleDisplayTimer (squatState (resetCounter app)) = None"
  by (simp add: resetCounter_def Let_def resetSquatRep_def clearTimeout_def split: option.split)

text \<open>
  Claim C9. Resetting the counter twice leaves the analyser in the state in which
  resetting it once leaves it, whatever the state before: the counter, the stage, the
  extrema and flags, the warnings, the two displays and the pending timers are the same.
\<close>

theorem resetCounter_idempotent:
  "resetCounter (resetCounter app) = resetCounter app"
proof -
  have "angleDisplayTimer (squatState (resetCounter app)) = None"
    by simp
  then have "resetCounter (resetCounter app) =
      (resetCounter app)\<lparr>squatCounter := 0, warningMessages := [],
         squatState := resetSquatRep (squatState (resetCounter app)), squatStage := None,
         displayAngles := initialDisplayAngles, currentAngles := initialCurrentAngles\<rparr>"
    by (simp add: resetCounter_def [of "resetCounter app"] Let_def resetSquatRep_def)
  also have "\<dots> = resetCounter app"
    by (simp add: resetCounter_def [of app] Let_def resetSquatRep_def clearTimeout_def
        split: option.split)
  finally show ?thesis .
qed

text \<open>
  The state after the first repetition of the session, where a timer is pending and a
  warning is active: the first reset clears both, and the second changes nothing.
\<close>

theorem resetCounter_idempotent_witness:
  "pendingTimers afterFirstRep = [(1, 3100)] \<and>
   squatCounter (resetCounter afterFirstRep) = 0 \<and>
   pendingTimers (resetCounter afterFirstRep) = [] \<and>
   resetCounter (resetCounter afterFirstRep) = resetCounter afterFirstRep"
proof -
  have "pendingTimers (resetCounter afterFirstRep) = []"
    by (simp add: resetCounter_def Let_def resetSquatRep_def clearTimeout_def
        afterFirstRep_fields)
  moreover have "squatCounter (resetCounter afterFirstRep) = 0"
    by (simp add: resetCounter_def Let_def clearTimeout_def split: option.split)
  moreover have "resetCounter (resetCounter afterFirstRep) = resetCounter afterFirstRep"
    by (rule resetCounter_idempotent)
  ultimately show ?thesis
    by (simp add: afterFirstRep_fields)
qed

section \<open>What every reachable state satisfies\<close>

lemma resetCounter_fields:
  "squatCounter (resetCounter app) = 0"
  "warningMessages (resetCounter app) = []"
  "depthWarningGiven (squatState (resetCounter app)) = False"
  "descending (squatState (resetCounter app)) = False"
  "pendingTimers (resetCounter app) =
     (case angleDisplayTimer (squatState app) of
        Some h \<Rightarrow> filter (\<lambda>p. fst p \<noteq> h) (pendingTimers app)
      | None \<Rightarrow> pendingTimers app)"
  by (simp_all add: resetCounter_def Let_def resetSquatRep_def clearTimeout_def
      split: option.split)

lemma fireAll_fields [simp]:
  "squatCounter (fireAll ts app) = squatCounter app"
  "warningMessages (fireAll ts app) = warningMessages app"
  "squatState (fireAll ts app) = squatState app"
  "pendingTimers (fireAll ts app) = pendingTimers app"
  by (induction ts arbitrary: app) (simp_all add: angleDisplayExpired_def)

lemma fireAll_display:
  "ts \<noteq> [] \<Longrightarrow> showingLastRep (displayAngles (fireAll ts app)) = False"
  "fireAll [] app = app"
proof -
  have "showingLastRep (displayAngles (fireAll us (angleDisplayExpired a))) = False" for us a
    by (induction us arbitrary: a) (simp_all add: angleDisplayExpired_def)
  then show "ts \<noteq> [] \<Longrightarrow> showingLastRep (displayAngles (fireAll ts app)) = False"
    by (cases ts) simp_all
  show "fireAll [] app = app"
    by simp
qed

lemma runTimers_fields [simp]:
  "squatCounter (runTimers now app) = squatCounter app"
  "warningMessages (runTimers now app) = warningMessages app"
  "squatState (runTimers now app) = squatState app"
  "pendingTimers (runTimers now app) = filter (\<lambda>p. \<not> snd p \<le> now) (pendingTimers app)"
  by (simp_all add: runTimers_def)

lemma runTimers_none_due:
  "\<forall>p \<in> set (pendingTimers app). now < snd p \<Longrightarrow> runTimers now app = app"
proof -
  assume a: "\<forall>p \<in> set (pendingTimers app). now < snd p"
  then have "filter (\<lambda>p. snd p \<le> now) (pendingTimers app) = []"
    by (auto simp add: filter_empty_conv)
  moreover from a have "filter (\<lambda>p. \<not> snd p \<le> now) (pendingTimers app) = pendingTimers app"
    by (auto simp add: filter_id_conv)
  ultimately show ?thesis
    by (simp add: runTimers_def)
qed

lemma runTimers_due:
  "pendingTimers app = [(h, due)] \<Longrightarrow> due \<le> now \<Longrightarrow>
     showingLastRep (displayAngles (runTimers now app)) = False \<and>
     pendingTimers (runTimers now app) = []"
  by (simp add: runTimers_def angleDisplayExpired_def)

lemma consistent_initial: "consistent initialAnalyzer"
  by (simp add: consistent_def initial_fields)

lemma consistent_analyzeAngles:
  assumes "consistent app"
  shows "consistent (analyzeAngles k h e x t app)"
proof (cases "js_lt k (Num 30) \<and> descending (squatState app)")
  case True
  then have c: "js_lt k (Num 30)" "descending (squatState app)"
    by simp_all
  have "(case angleDisplayTimer (squatState app) of
           Some old \<Rightarrow> filter (\<lambda>p. fst p \<noteq> old) (pendingTimers app)
         | None \<Rightarrow> pendingTimers app) = []"
    using assms by (auto simp add: consistent_def split: option.split)
  then have "pendingTimers (analyzeAngles k h e x t app) = [(nextTimerId app, t + 3000)]"
    by (simp add: analyzeAngles_complete_fields(7) [OF c])
  then show ?thesis
    by (simp add: consistent_def analyzeAngles_complete_fields [OF c])
next
  case False
  then show ?thesis
    using assms by (simp add: consistent_def analyzeAngles_idle_fields [OF False])
qed

lemma consistent_analyzeSquat:
  assumes "consistent app"
  shows "consistent (analyzeSquat lms t app)"
proof (cases "liveKneeAngle lms")
  case None
  then show ?thesis
    using assms by (simp add: analyzeSquat_absent liveKneeAngle_absent)
next
  case (Some k)
  then obtain h e x where "analyzeSquat lms t app = analyzeAngles k h e x t app"
    by (rule analyzeSquat_present)
  then show ?thesis
    using assms by (simp add: consistent_analyzeAngles)
qed

lemma pendingTimers_resetCounter:
  assumes "consistent app"
  shows "pendingTimers (resetCounter app) = []"
  using assms by (auto simp add: consistent_def resetCounter_fields split: option.split)

lemma consistent_resetCounter:
  assumes "consistent app"
  shows "consistent (resetCounter app)"
  by (simp add: consistent_def pendingTimers_resetCounter [OF assms] resetCounter_fields(3))

lemma consistent_runTimers:
  assumes "consistent app"
  shows "consistent (runTimers now app)"
proof (cases "pendingTimers app")
  case Nil
  then show ?thesis
    using assms by (simp add: consistent_def)
next
  case (Cons p ps)
  then obtain h due where one: "pendingTimers app = [(h, due)]"
    and handle: "angleDisplayTimer (squatState app) = Some h"
    using assms by (auto simp add: consistent_def)
  show ?thesis
  proof (cases "due \<le> now")
    case True
    then show ?thesis
      using assms by (simp add: consistent_def one)
  next
    case False
    then show ?thesis
      using assms by (simp add: consistent_def one handle)
  qed
qed

lemma consistent_render:
  "consistent app \<Longrightarrow> consistent (render app)"
  by (simp add: consistent_def render_def)

lemma consistent_handleEvent:
  "consistent app \<Longrightarrow> consistent (handleEvent ev app)"
  by (cases ev)
    (simp_all add: consistent_analyzeSquat consistent_resetCounter consistent_runTimers
      consistent_render)

lemma consistent_runEvents:
  "consistent app \<Longrightarrow> consistent (runEvents es app)"
  by (induction es arbitrary: app) (simp_all add: consistent_handleEvent)

lemma consistent_reachable: "consistent (runEvents es initialAnalyzer)"
  by (rule consistent_runEvents) (rule consistent_initial)

section \<open>Depth warnings\<close>

lemma completion_by_phase:
  assumes "descending (squatState app)" and "\<not> descending (squatState (analyzeSquat lms t app))"
  obtains k h e x where "analyzeSquat lms t app = analyzeAngles k h e x t app"
    and "js_lt k (Num 30)"
proof -
  from assms obtain k where k: "liveKneeAngle lms = Some k" "js_lt k (Num 30)"
    using analyzeSquat_transition [of app lms t] by blast
  from k(1) obtain h e x where "analyzeSquat lms t app = analyzeAngles k h e x t app"
    by (rule analyzeSquat_present)
  with k(2) that show thesis
    by blast
qed

lemma no_completion_warnings:
  assumes "\<not> (descending (squatState app) \<and> \<not> descending (squatState (analyzeSquat lms t app)))"
  shows "warningMessages (analyzeSquat lms t app) = warningMessages app \<or>
         warningMessages (analyzeSquat lms t app) = []"
    and "lastWarningTime (squatState (analyzeSquat lms t app)) = lastWarningTime (squatState app)"
proof -
  have "(warningMessages (analyzeSquat lms t app) = warningMessages app \<or>
         warningMessages (analyzeSquat lms t app) = []) \<and>
        lastWarningTime (squatState (analyzeSquat lms t app)) = lastWarningTime (squatState app)"
  proof (cases "liveKneeAngle lms")
    case None
    then show ?thesis
      by (simp add: analyzeSquat_absent liveKneeAngle_absent)
  next
    case (Some k)
    then obtain h e x where eq: "analyzeSquat lms t app = analyzeAngles k h e x t app"
      by (rule analyzeSquat_present)
    have idle: "\<not> (js_lt k (Num 30) \<and> descending (squatState app))"
      using assms Some analyzeSquat_transition [of app lms t] by simp
    show ?thesis
      by (simp add: eq analyzeAngles_idle_fields [OF idle])
  qed
  then show "warningMessages (analyzeSquat lms t app) = warningMessages app \<or>
         warningMessages (analyzeSquat lms t app) = []"
    and "lastWarningTime (squatState (analyzeSquat lms t app)) = lastWarningTime (squatState app)"
    by simp_all
qed

lemma completion_warnings:
  assumes "consistent app"
    and "descending (squatState app)" and "\<not> descending (squatState (analyzeSquat lms t app))"
  defines "w \<equiv> depthWarningFor (disp_maxKneeAngle (displayAngles (analyzeSquat lms t app)))"
  shows "w \<noteq> [] \<Longrightarrow> warningMessages (analyzeSquat lms t app) = w"
    and "w \<noteq> [] \<Longrightarrow> lastWarningTime (squatState (analyzeSquat lms t app)) = t"
    and "w = [] \<Longrightarrow> warningMessages (analyzeSquat lms t app) = warningMessages app \<or>
           warningMessages (analyzeSquat lms t app) = []"
proof -
  obtain k h e x where eq: "analyzeSquat lms t app = analyzeAngles k h e x t app"
    and k: "js_lt k (Num 30)"
    using assms(2,3) by (rule completion_by_phase)
  have flag: "\<not> depthWarningGiven (squatState app)"
    using assms(1) by (simp add: consistent_def)
  note ws = analyzeAngles_complete_warnings [OF k assms(2) flag, of h e x t, folded eq w_def]
  show "w \<noteq> [] \<Longrightarrow> warningMessages (analyzeSquat lms t app) = w"
    by (simp add: ws)
  show "w \<noteq> [] \<Longrightarrow> lastWarningTime (squatState (analyzeSquat lms t app)) = t"
    by (simp add: ws)
  show "w = [] \<Longrightarrow> warningMessages (analyzeSquat lms t app) = warningMessages app \<or>
           warningMessages (analyzeSquat lms t app) = []"
    by (simp add: ws)
qed

lemma depthWarningFor_exclusive:
  "length (depthWarningFor m) \<le> 1"
  "\<not> (''Too deep! Protect your knees'' \<in> set (depthWarningFor m) \<and>
      ''Not deep enough! Go deeper'' \<in> set (depthWarningFor m))"
  by (simp_all add: depthWarningFor_def)

text \<open>
  Claim C5. In every state a run of events can reach, a frame that completes a repetition
  emits the warning that the depth rule gives for the greatest knee angle frozen in the
  snapshot: ``too deep'' above 140, else ``not deep enough'' below 100, else none; what
  it emits becomes the list of active warnings. The rule gives at most one warning, never
  both. A frame that completes no repetition, or whose repetition has no depth warning,
  emits nothing: it leaves the list as it was or empties it.
\<close>

theorem depth_warning_at_completion:
  "let app = runEvents es initialAnalyzer;
       app' = analyzeSquat lms t app;
       w = depthWarningFor (disp_maxKneeAngle (displayAngles app'))
   in (descending (squatState app) \<and> \<not> descending (squatState app') \<and> w \<noteq> [] \<longrightarrow>
         warningMessages app' = w) \<and>
      (\<not> (descending (squatState app) \<and> \<not> descending (squatState app')) \<or> w = [] \<longrightarrow>
         warningMessages app' = warningMessages app \<or> warningMessages app' = []) \<and>
      length w \<le> 1 \<and>
      \<not> (''Too deep! Protect your knees'' \<in> set w \<and> ''Not deep enough! Go deeper'' \<in> set w)"
proof -
  define app where "app = runEvents es initialAnalyzer"
  define app' where "app' = analyzeSquat lms t app"
  define w where "w = depthWarningFor (disp_maxKneeAngle (displayAngles app'))"
  have inv: "consistent app"
    unfolding app_def by (rule consistent_reachable)
  have 1: "warningMessages app' = w"
    if "descending (squatState app) \<and> \<not> descending (squatState app') \<and> w \<noteq> []"
    using that completion_warnings(1) [OF inv, of lms t] unfolding app'_def w_def by blast
  have 2: "warningMessages app' = warningMessages app \<or> warningMessages app' = []"
    if "\<not> (descending (squatState app) \<and> \<not> descending (squatState app')) \<or> w = []"
  proof (cases "descending (squatState app) \<and> \<not> descending (squatState app')")
    case True
    with that have "w = []" by blast
    with True show ?thesis
      using completion_warnings(3) [OF inv, of lms t] unfolding app'_def w_def by blast
  next
    case False
    then show ?thesis
      using no_completion_warnings(1) [of app lms t] unfolding app'_def by blast
  qed
  have 3: "length w \<le> 1"
    and 4: "\<not> (''Too deep! Protect your knees'' \<in> set w \<and> ''Not deep enough! Go deeper'' \<in> set w)"
    unfolding w_def by (rule depthWarningFor_exclusive)+
  from 1 2 3 4 show ?thesis
    unfolding Let_def app_def [symmetric] app'_def [symmetric] w_def [symmetric] by blast
qed

text \<open>
  The first repetition of the session: its greatest knee angle is 180, and the standing
  frame that completes it emits ``too deep''.
\<close>

theorem depth_warning_at_completion_witness:
  "descending (squatState afterDescent) \<and> \<not> descending (squatState afterFirstRep) \<and>
   depthWarningFor (disp_maxKneeAngle (displayAngles afterFirstRep)) =
     [''Too deep! Protect your knees''] \<and>
   warningMessages afterFirstRep = [''Too deep! Protect your knees'']"
proof -
  have w: "depthWarningFor (disp_maxKneeAngle (displayAngles afterFirstRep)) =
      [''Too deep! Protect your knees'']"
    by (simp add: afterFirstRep_fields depthWarningFor_def js_gt_def)
  have c: "descending (squatState afterDescent) \<and> \<not> descending (squatState afterFirstRep)"
    by (simp add: afterDescent_fields afterFirstRep_fields)
  have "warningMessages afterFirstRep =
      depthWarningFor (disp_maxKneeAngle (displayAngles afterFirstRep))"
    using depth_warning_at_completion [of "[Frame deepFrame 0]" standingFrame 100] c w
    by (simp add: Let_def afterDescent_def [symmetric] afterFirstRep_def [symmetric])
  with c w show ?thesis
    by simp
qed

text \<open>
  Claim C3, as the source has it. In every state a run of events can reach, a frame that
  completes a repetition and emits warnings makes the emitted warnings the list of
  active warnings, in place of the warnings that were active, and stamps the time of the
  last warning with the instant of the frame.
\<close>

theorem emitted_warnings_replace_active:
  "let app = runEvents es initialAnalyzer;
       app' = analyzeSquat lms t app;
       w = depthWarningFor (disp_maxKneeAngle (displayAngles app'))
   in descending (squatState app) \<and> \<not> descending (squatState app') \<and> w \<noteq> [] \<longrightarrow>
        warningMessages app' = w \<and> lastWarningTime (squatState app') = t"
proof -
  have inv: "consistent (runEvents es initialAnalyzer)"
    by (rule consistent_reachable)
  show ?thesis
    unfolding Let_def
    using completion_warnings(1,2) [OF inv, of lms t] by blast
qed

text \<open>
  The second repetition of the session emits ``not deep enough'' at the instant 300.
\<close>

theorem emitted_warnings_replace_active_witness:
  "descending (squatState afterSecondDescent) \<and> \<not> descending (squatState afterSecondRep) \<and>
   depthWarningFor (disp_maxKneeAngle (displayAngles afterSecondRep)) \<noteq> [] \<and>
   warningMessages afterSecondRep =
     depthWarningFor (disp_maxKneeAngle (displayAngles afterSecondRep)) \<and>
   lastWarningTime (squatState afterSecondRep) = 300"
proof -
  have w: "depthWarningFor (disp_maxKneeAngle (displayAngles afterSecondRep)) \<noteq> []"
    by (simp add: afterSecondRep_fields depthWarningFor_def js_gt_def)
  have c: "descending (squatState afterSecondDescent) \<and>
      \<not> descending (squatState afterSecondRep)"
    by (simp add: afterSecondDescent_fields afterSecondRep_fields)
  have "runEvents [Frame deepFrame 0, Frame standingFrame 100, Frame bentFrame 200]
      initialAnalyzer = afterSecondDescent"
    by (rule session_as_events)
  then have "warningMessages afterSecondRep =
      depthWarningFor (disp_maxKneeAngle (displayAngles afterSecondRep)) \<and>
      lastWarningTime (squatState afterSecondRep) = 300"
    using emitted_warnings_replace_active
      [of "[Frame deepFrame 0, Frame standingFrame 100, Frame bentFrame 200]" standingFrame 300]
      c w
    by (simp add: Let_def afterSecondRep_def [symmetric])
  with c w show ?thesis
    by simp
qed

text \<open>
  Claim C3 as the specification states it fails: when the second repetition of the
  session completes, ``too deep'' is active, and the list after the frame holds
  ``not deep enough'' alone.
\<close>

theorem active_warnings_retained_counterexample:
  "afterSecondDescent =
     runEvents [Frame deepFrame 0, Frame standingFrame 100, Frame bentFrame 200] initialAnalyzer \<and>
   afterSecondRep = analyzeSquat standingFrame 300 afterSecondDescent \<and>
   squatCounter afterSecondRep = squatCounter afterSecondDescent + 1 \<and>
   warningMessages afterSecondDescent = [''Too deep! Protect your knees''] \<and>
   warningMessages afterSecondRep = [''Not deep enough! Go deeper''] \<and>
   \<not> set (warningMessages afterSecondDescent) \<subseteq> set (warningMessages afterSecondRep)"
proof -
  have "afterSecondDescent =
     runEvents [Frame deepFrame 0, Frame standingFrame 100, Frame bentFrame 200] initialAnalyzer"
    by (rule session_as_events(3) [symmetric])
  moreover have "afterSecondRep = analyzeSquat standingFrame 300 afterSecondDescent"
    by (rule afterSecondRep_def)
  moreover have "squatCounter afterSecondRep = squatCounter afterSecondDescent + 1"
    by (simp add: afterSecondRep_fields afterSecondDescent_fields)
  moreover have "warningMessages afterSecondDescent = [''Too deep! Protect your knees'']"
    by (rule afterSecondDescent_fields)
  moreover have "warningMessages afterSecondRep = [''Not deep enough! Go deeper'']"
    by (rule afterSecondRep_fields)
  moreover have "\<not> set (warningMessages afterSecondDescent) \<subseteq> set (warningMessages afterSecondRep)"
    by (simp add: afterSecondRep_fields afterSecondDescent_fields)
  ultimately show ?thesis
    by blast
qed

section \<open>The expiry of the snapshot\<close>

lemma completion_by_counter:
  assumes "squatCounter (analyzeSquat lms t app) = squatCounter app + 1"
  obtains k h e x where "analyzeSquat lms t app = analyzeAngles k h e x t app"
    and "js_lt k (Num 30)" and "descending (squatState app)"
proof -
  have "descending (squatState app) \<and> \<not> descending (squatState (analyzeSquat lms t app))"
    using assms analyzeSquat_counter [of lms t app] by (simp split: if_splits)
  then have d: "descending (squatState app)"
    and u: "\<not> descending (squatState (analyzeSquat lms t app))"
    by simp_all
  from d u obtain k h e x where "analyzeSquat lms t app = analyzeAngles k h e x t app"
    and "js_lt k (Num 30)"
    by (rule completion_by_phase)
  with d that show thesis
    by blast
qed

lemma completion_timer:
  assumes "consistent app"
    and "squatCounter (analyzeSquat lms t app) = squatCounter app + 1"
  shows "showingLastRep (displayAngles (analyzeSquat lms t app))"
    and "\<exists>h. pendingTimers (analyzeSquat lms t app) = [(h, t + 3000)]"
proof -
  obtain k h e x where eq: "analyzeSquat lms t app = analyzeAngles k h e x t app"
    and c: "js_lt k (Num 30)" "descending (squatState app)"
    using assms(2) by (rule completion_by_counter)
  show "showingLastRep (displayAngles (analyzeSquat lms t app))"
    by (simp add: eq analyzeAngles_complete_fields [OF c])
  have "(case angleDisplayTimer (squatState app) of
           Some old \<Rightarrow> filter (\<lambda>p. fst p \<noteq> old) (pendingTimers app)
         | None \<Rightarrow> pendingTimers app) = []"
    using assms(1) by (auto simp add: consistent_def split: option.split)
  then show "\<exists>h. pendingTimers (analyzeSquat lms t app) = [(h, t + 3000)]"
    by (simp add: eq analyzeAngles_complete_fields(7) [OF c])
qed

lemma no_completion_display:
  assumes "squatCounter (analyzeSquat lms t app) = squatCounter app"
  shows "pendingTimers (analyzeSquat lms t app) = pendingTimers app"
    and "showingLastRep (renderedDisplayAngles app) \<Longrightarrow>
           displayAngles (analyzeSquat lms t app) = displayAngles app"
proof -
  have "pendingTimers (analyzeSquat lms t app) = pendingTimers app \<and>
        (showingLastRep (renderedDisplayAngles app) \<longrightarrow>
           displayAngles (analyzeSquat lms t app) = displayAngles app)"
  proof (cases "liveKneeAngle lms")
    case None
    then show ?thesis
      by (simp add: analyzeSquat_absent liveKneeAngle_absent)
  next
    case (Some k)
    then obtain h e x where eq: "analyzeSquat lms t app = analyzeAngles k h e x t app"
      by (rule analyzeSquat_present)
    have idle: "\<not> (js_lt k (Num 30) \<and> descending (squatState app))"
      using assms analyzeAngles_eval(1) [of k h e x t app] by (simp add: eq split: if_splits)
    show ?thesis
      by (simp add: eq analyzeAngles_idle_fields [OF idle] analyzeAngles_idle_frozen [OF idle])
  qed
  then show "pendingTimers (analyzeSquat lms t app) = pendingTimers app"
    and "showingLastRep (renderedDisplayAngles app) \<Longrightarrow>
           displayAngles (analyzeSquat lms t app) = displayAngles app"
    by simp_all
qed

lemma squatCounter_mono:
  "squatCounter app \<le> squatCounter (analyzeSquat lms t app)"
  "squatCounter app \<le> squatCounter (processFrames fs app)"
  by (simp_all add: analyzeSquat_counter [of lms t app] processFrames_counter)

lemma processFrames_rendered [simp]:
  "renderedDisplayAngles (processFrames fs app) = renderedDisplayAngles app"
  by (induction fs arbitrary: app) simp_all

text \<open>
  Frames that complete no repetition leave the pending timers alone; they leave the
  display alone as well when the render of their closure showed the last repetition.
\<close>

lemma no_repetition_display:
  assumes "squatCounter (processFrames fs app) = squatCounter app"
  shows "pendingTimers (processFrames fs app) = pendingTimers app \<and>
         (showingLastRep (renderedDisplayAngles app) \<longrightarrow>
            displayAngles (processFrames fs app) = displayAngles app)"
  using assms
proof (induction fs arbitrary: app)
  case Nil
  show ?case by simp
next
  case (Cons f fs)
  let ?a = "analyzeSquat (fst f) (snd f) app"
  have "squatCounter app \<le> squatCounter ?a"
    by (rule squatCounter_mono)
  moreover have "squatCounter ?a \<le> squatCounter (processFrames fs ?a)"
    by (rule squatCounter_mono)
  moreover have total: "squatCounter (processFrames fs ?a) = squatCounter app"
    using Cons.prems(1) by simp
  ultimately have same: "squatCounter ?a = squatCounter app"
    by simp
  have step: "pendingTimers ?a = pendingTimers app"
    "showingLastRep (renderedDisplayAngles app) \<Longrightarrow> displayAngles ?a = displayAngles app"
    using no_completion_display [OF same] by simp_all
  have "squatCounter (processFrames fs ?a) = squatCounter ?a"
    using total same by simp
  then have "pendingTimers (processFrames fs ?a) = pendingTimers ?a \<and>
      (showingLastRep (renderedDisplayAngles ?a) \<longrightarrow>
         displayAngles (processFrames fs ?a) = displayAngles ?a)"
    by (rule Cons.IH)
  then show ?case
    using step by simp
qed

lemma pendingTimers_at_most_one:
  "consistent app \<Longrightarrow> length (pendingTimers app) \<le> 1"
  by (auto simp add: consistent_def)

lemma runTimers_after_reset:
  assumes "consistent app"
  shows "runTimers now (resetCounter app) = resetCounter app"
  by (rule runTimers_none_due) (simp add: pendingTimers_resetCounter [OF assms])

lemma render_fields [simp]:
  "squatCounter (render app) = squatCounter app"
  "warningMessages (render app) = warningMessages app"
  "squatState (render app) = squatState app"
  "pendingTimers (render app) = pendingTimers app"
  "nextTimerId (render app) = nextTimerId app"
  "displayAngles (render app) = displayAngles app"
  "renderedDisplayAngles (render app) = displayAngles app"
  by (simp_all add: render_def)

text \<open>
  What holds of the expiry in every state a run of events can reach: at most one timer is
  pending; after a reset none is pending, so that no expiry runs on the reset state at
  any later instant; and a frame at the instant \<open>t\<close> that completes a repetition leaves
  the snapshot shown and exactly one timer pending, due at \<open>t + 3000\<close>, whatever was
  pending before. When the frames that follow complete no repetition, the runtime changes
  nothing before \<open>t + 3000\<close>, and from \<open>t + 3000\<close> on it clears the flag of the snapshot
  and leaves no timer pending.
\<close>

lemma snapshot_timer:
  "let app = runEvents es initialAnalyzer;
       app' = analyzeSquat lms t app;
       app'' = processFrames fs app'
   in length (pendingTimers app) \<le> 1 \<and>
      pendingTimers (resetCounter app) = [] \<and>
      runTimers now (resetCounter app) = resetCounter app \<and>
      (squatCounter app' = squatCounter app + 1 \<longrightarrow>
         showingLastRep (displayAngles app') \<and>
         (\<exists>h. pendingTimers app' = [(h, t + 3000)]) \<and>
         (squatCounter app'' = squatCounter app' \<longrightarrow>
            (now < t + 3000 \<longrightarrow> runTimers now app'' = app'') \<and>
            (t + 3000 \<le> now \<longrightarrow>
               \<not> showingLastRep (displayAngles (runTimers now app'')) \<and>
               pendingTimers (runTimers now app'') = [])))"
proof -
  define app where "app = runEvents es initialAnalyzer"
  define app' where "app' = analyzeSquat lms t app"
  define app'' where "app'' = processFrames fs app'"
  have inv: "consistent app"
    unfolding app_def by (rule consistent_reachable)
  have 1: "length (pendingTimers app) \<le> 1"
    using inv by (rule pendingTimers_at_most_one)
  have 2: "pendingTimers (resetCounter app) = []"
    using inv by (rule pendingTimers_resetCounter)
  have 3: "runTimers now (resetCounter app) = resetCounter app"
    using inv by (rule runTimers_after_reset)
  have 4: "showingLastRep (displayAngles app') \<and>
         (\<exists>h. pendingTimers app' = [(h, t + 3000)]) \<and>
         (squatCounter app'' = squatCounter app' \<longrightarrow>
            (now < t + 3000 \<longrightarrow> runTimers now app'' = app'') \<and>
            (t + 3000 \<le> now \<longrightarrow>
               \<not> showingLastRep (displayAngles (runTimers now app'')) \<and>
               pendingTimers (runTimers now app'') = []))"
    if rep: "squatCounter app' = squatCounter app + 1"
  proof -
    have shown: "showingLastRep (displayAngles app')"
      using completion_timer(1) [OF inv] rep unfolding app'_def by blast
    obtain h where timer: "pendingTimers app' = [(h, t + 3000)]"
      using completion_timer(2) [OF inv] rep unfolding app'_def by blast
    have later: "(now < t + 3000 \<longrightarrow> runTimers now app'' = app'') \<and>
            (t + 3000 \<le> now \<longrightarrow>
               \<not> showingLastRep (displayAngles (runTimers now app'')) \<and>
               pendingTimers (runTimers now app'') = [])"
      if idle: "squatCounter app'' = squatCounter app'"
    proof -
      have kept: "pendingTimers app'' = [(h, t + 3000)]"
        using no_repetition_display [of fs app'] idle timer unfolding app''_def by simp
      have "runTimers now app'' = app''" if "now < t + 3000"
        by (rule runTimers_none_due) (simp add: kept that)
      moreover have "\<not> showingLastRep (displayAngles (runTimers now app'')) \<and>
               pendingTimers (runTimers now app'') = []" if "t + 3000 \<le> now"
        using runTimers_due [OF kept that] by simp
      ultimately show ?thesis
        by simp
    qed
    from shown timer later show ?thesis
      by blast
  qed
  from 1 2 3 4 show ?thesis
    unfolding Let_def app_def [symmetric] app'_def [symmetric] app''_def [symmetric] by blast
qed

text \<open>
  When React renders after the frame that completes a repetition, the frames that follow
  and complete no repetition leave the snapshot as it is.
\<close>

lemma snapshot_kept_after_render:
  assumes "showingLastRep (displayAngles app)"
    and "squatCounter (processFrames fs (render app)) = squatCounter app"
  shows "displayAngles (processFrames fs (render app)) = displayAngles app"
  using no_repetition_display [of fs "render app"] assms by simp

lemma afterStaleFrame_fields:
  "squatCounter afterStaleFrame = 1"
  "pendingTimers afterStaleFrame = [(1, 3100)]"
  "\<not> showingLastRep (displayAngles afterStaleFrame)"
  by (simp_all add: afterStaleFrame_def analyzeSquat_frames analyzeAngles_eval
      analyzeAngles_idle_fields afterFirstRep_fields session_rendered)

lemma afterFreshFrame_fields:
  "squatCounter afterFreshFrame = 1"
  "pendingTimers afterFreshFrame = [(1, 3100)]"
  "showingLastRep (displayAngles afterFreshFrame)"
  by (simp_all add: afterFreshFrame_def analyzeSquat_frames analyzeAngles_eval
      analyzeAngles_idle_fields afterFirstRep_fields)

text \<open>
  Claim C7. After a repetition completes, the flag of the snapshot is set at once and is
  cleared 3000 ms later when no repetition intervenes. It fails when the next frame is
  handled before React has rendered: the first repetition of the session completes at the
  instant 100, with the snapshot shown and its timer due at 3100; the frame of the
  instant 133 completes no repetition, its closure still holds the display of before the
  repetition, and it overwrites the snapshot, so that the flag is down at 133 while the
  timer is still pending. The same frame handled after a render leaves the snapshot shown.
\<close>

theorem snapshot_overwritten_before_expiry:
  "afterFirstRep = runEvents [Frame deepFrame 0, Frame standingFrame 100] initialAnalyzer \<and>
   squatCounter afterFirstRep = 1 \<and>
   showingLastRep (displayAngles afterFirstRep) \<and>
   pendingTimers afterFirstRep = [(1, 3100)] \<and>
   afterStaleFrame = analyzeSquat bentFrame 133 afterFirstRep \<and>
   squatCounter afterStaleFrame = 1 \<and>
   pendingTimers afterStaleFrame = [(1, 3100)] \<and>
   runTimers 133 afterStaleFrame = afterStaleFrame \<and>
   \<not> showingLastRep (displayAngles afterStaleFrame) \<and>
   afterFreshFrame = analyzeSquat bentFrame 133 (render afterFirstRep) \<and>
   showingLastRep (displayAngles afterFreshFrame)"
proof -
  have "afterFirstRep = runEvents [Frame deepFrame 0, Frame standingFrame 100] initialAnalyzer"
    by (rule session_as_events(2) [symmetric])
  moreover have "runTimers 133 afterStaleFrame = afterStaleFrame"
    by (rule runTimers_none_due) (simp add: afterStaleFrame_fields)
  moreover note afterFirstRep_fields(1,4,7) afterStaleFrame_def afterStaleFrame_fields
    afterFreshFrame_def afterFreshFrame_fields(3)
  ultimately show ?thesis
    by blast
qed

section \<open>The first scenario of the specification\<close>

text \<open>
  From the initial state the first frame, with its knee angle of 170, starts the descent;
  the frames down to 50 keep the analyser descending with a greatest knee angle of 170;
  the frame of 20 completes the repetition.
\<close>

lemma scenario_states:
  fixes x1 x2 x3 x4 x5 x6 :: jsnum and t1 t2 t3 t4 t5 t6 :: int
  defines "a1 \<equiv> analyzeAngles (Num 170) (Num 90) (Num 90) x1 t1 initialAnalyzer"
  defines "a2 \<equiv> analyzeAngles (Num 120) (Num 90) (Num 90) x2 t2 a1"
  defines "a3 \<equiv> analyzeAngles (Num 90) (Num 90) (Num 90) x3 t3 a2"
  defines "a4 \<equiv> analyzeAngles (Num 70) (Num 90) (Num 90) x4 t4 a3"
  defines "a5 \<equiv> analyzeAngles (Num 50) (Num 90) (Num 90) x5 t5 a4"
  defines "a6 \<equiv> analyzeAngles (Num 20) (Num 90) (Num 90) x6 t6 a5"
  shows "descending (squatState a1) \<and> descending (squatState a2) \<and>
     descending (squatState a3) \<and> descending (squatState a4) \<and>
     descending (squatState a5) \<and> \<not> descending (squatState a6) \<and>
     squatCounter a6 = 1 \<and> showingLastRep (displayAngles a6) \<and>
     disp_maxKneeAngle (displayAngles a6) = Num 170 \<and>
     disp_minKneeAngle (displayAngles a6) = Num 20"
proof -
  have s1: "descending (squatState a1)" "squatCounter a1 = 0"
    "maxKneeAngle (squatState a1) = Num 170" "minKneeAngle (squatState a1) = Num 170"
    unfolding a1_def
    by (simp_all add: analyzeAngles_eval analyzeAngles_eval_extrema initial_fields js_gt_def)
  have s2: "descending (squatState a2)" "squatCounter a2 = 0"
    "maxKneeAngle (squatState a2) = Num 170" "minKneeAngle (squatState a2) = Num 120"
    unfolding a2_def
    by (simp_all add: analyzeAngles_eval analyzeAngles_eval_extrema s1)
  have s3: "descending (squatState a3)" "squatCounter a3 = 0"
    "maxKneeAngle (squatState a3) = Num 170" "minKneeAngle (squatState a3) = Num 90"
    unfolding a3_def
    by (simp_all add: analyzeAngles_eval analyzeAngles_eval_extrema s2)
  have s4: "descending (squatState a4)" "squatCounter a4 = 0"
    "maxKneeAngle (squatState a4) = Num 170" "minKneeAngle (squatState a4) = Num 70"
    unfolding a4_def
    by (simp_all add: analyzeAngles_eval analyzeAngles_eval_extrema s3)
  have s5: "descending (squatState a5)" "squatCounter a5 = 0"
    "maxKneeAngle (squatState a5) = Num 170" "minKneeAngle (squatState a5) = Num 50"
    unfolding a5_def
    by (simp_all add: analyzeAngles_eval analyzeAngles_eval_extrema s4)
  have c: "js_lt (Num 20) (Num 30)" "descending (squatState a5)"
    by (simp_all add: s5)
  note f = analyzeAngles_complete_fields [OF c, of "Num 90" "Num 90" x6 t6, folded a6_def]
  have s6: "\<not> descending (squatState a6)" "squatCounter a6 = 1"
    "showingLastRep (displayAngles a6)"
    "disp_maxKneeAngle (displayAngles a6) = Num 170"
    "disp_minKneeAngle (displayAngles a6) = Num 20"
    by (simp_all add: f s5)
  from s1(1) s2(1) s3(1) s4(1) s5(1) s6 show ?thesis
    by blast
qed

text \<open>
  Claim C1, as the source has it. Frames that yield the knee angles 170, 120, 90, 70, 50
  and 20 in that order, with hip and heel angles of 90, take the phase from up to
  descending at the first frame, the one of 170 degrees, and from descending to up at the
  frame of 20 degrees; the counter is then 1, and the snapshot of the last repetition is
  shown with a greatest knee angle of 170. This holds wherever the knee is and whenever
  the frames arrive.
\<close>

theorem scenario_knee_angles:
  "let samples =
         [(Num 170, Num 90, Num 90, x1, t1), (Num 120, Num 90, Num 90, x2, t2),
          (Num 90, Num 90, Num 90, x3, t3), (Num 70, Num 90, Num 90, x4, t4),
          (Num 50, Num 90, Num 90, x5, t5), (Num 20, Num 90, Num 90, x6, t6)];
       final = analyzeSamples samples initialAnalyzer
   in \<not> descending (squatState initialAnalyzer) \<and>
      descendingAfter samples initialAnalyzer = [True, True, True, True, True, False] \<and>
      squatCounter final = 1 \<and>
      showingLastRep (displayAngles final) \<and>
      disp_maxKneeAngle (displayAngles final) = Num 170"
  using scenario_states [of x1 t1 x2 t2 x3 t3 x4 t4 x5 t5 x6 t6]
  by (simp add: Let_def initial_fields)

text \<open>
  The same frames with the knee at \<open>x = 1/2\<close>, one frame every 33 ms.
\<close>

theorem scenario_knee_angles_witness:
  "descendingAfter scenarioSamples initialAnalyzer = [True, True, True, True, True, False] \<and>
   squatCounter (analyzeSamples scenarioSamples initialAnalyzer) = 1 \<and>
   disp_maxKneeAngle (displayAngles (analyzeSamples scenarioSamples initialAnalyzer)) = Num 170"
  using scenario_knee_angles
    [of "Num (1/2)" 0 "Num (1/2)" 33 "Num (1/2)" 66 "Num (1/2)" 100 "Num (1/2)" 133 "Num (1/2)" 166]
  unfolding Let_def scenarioSamples_def by blast

text \<open>
  Claim C1 as the specification states it fails on these frames: the analyser is
  descending after the first frame, not from the frame of 90 degrees on, and the greatest
  knee angle frozen in the snapshot is 170, not 90.
\<close>

theorem scenario_knee_angles_counterexample:
  "\<not> (descendingAfter scenarioSamples initialAnalyzer = [False, False, True, True, True, False] \<and>
      squatCounter (analyzeSamples scenarioSamples initialAnalyzer) = 1 \<and>
      disp_maxKneeAngle (displayAngles (analyzeSamples scenarioSamples initialAnalyzer)) = Num 90)"
  using scenario_states
    [of "Num (1/2)" 0 "Num (1/2)" 33 "Num (1/2)" 66 "Num (1/2)" 100 "Num (1/2)" 133 "Num (1/2)" 166]
  by (simp add: scenarioSamples_def)

section \<open>The least knee angle of a repetition\<close>

lemma js_min_below:
  assumes "js_lt k (Num 30)" and "m \<noteq> NaN"
  shows "js_lt (js_min m k) (Num 30)"
  using assms by (cases m; cases k) simp_all

text \<open>
  As long as the least knee angle of the descent is a number, the frame that completes
  the repetition brings it below 30, and the snapshot holds it.
\<close>

lemma snapshot_min_below_30:
  assumes "squatCounter (analyzeSquat lms t app) = squatCounter app + 1"
    and "minKneeAngle (squatState app) \<noteq> NaN"
  shows "js_lt (disp_minKneeAngle (displayAngles (analyzeSquat lms t app))) (Num 30)"
proof -
  obtain k h e x where eq: "analyzeSquat lms t app = analyzeAngles k h e x t app"
    and c: "js_lt k (Num 30)" "descending (squatState app)"
    using assms(1) by (rule completion_by_counter)
  show ?thesis
    by (simp add: eq analyzeAngles_complete_fields [OF c] js_min_below [OF c(1) assms(2)])
qed

text \<open>
  Claim C10. After every completed repetition the least knee angle frozen in the
  snapshot is below 30. It fails on a descent with a collapsed frame: the knee angle of
  that frame is \<open>NaN\<close>, \<open>Math.min\<close> makes the least knee angle \<open>NaN\<close>, the standing frame
  completes the repetition, and the snapshot holds \<open>NaN\<close>, which is not below 30.
\<close>

theorem snapshot_min_not_a_number:
  "liveKneeAngle collapsedFrame = Some NaN \<and>
   squatCounter (processFrames collapsedSession initialAnalyzer) = 1 \<and>
   showingLastRep (displayAngles (processFrames collapsedSession initialAnalyzer)) \<and>
   disp_minKneeAngle (displayAngles (processFrames collapsedSession initialAnalyzer)) = NaN \<and>
   \<not> js_lt (disp_minKneeAngle (displayAngles (processFrames collapsedSession initialAnalyzer)))
        (Num 30)"
proof -
  define b1 where "b1 = analyzeSquat collapsedFrame 33 afterDescent"
  define b2 where "b2 = analyzeSquat standingFrame 66 b1"
  have run: "processFrames collapsedSession initialAnalyzer = b2"
    by (simp add: collapsedSession_def b2_def b1_def afterDescent_def)
  have s1: "descending (squatState b1)" "squatCounter b1 = 0"
    "minKneeAngle (squatState b1) = NaN"
    unfolding b1_def
    by (simp_all add: analyzeSquat_frames analyzeAngles_eval analyzeAngles_eval_extrema
        afterDescent_fields)
  have c: "js_lt (Num 0) (Num 30)" "descending (squatState b1)"
    by (simp_all add: s1)
  have eq: "b2 = analyzeAngles (Num 0) (Num 90) (Num 90) (Num (1/2)) 66 b1"
    by (simp add: b2_def analyzeSquat_frames)
  note f = analyzeAngles_complete_fields [OF c, of "Num 90" "Num 90" "Num (1/2)" 66, folded eq]
  have "liveKneeAngle collapsedFrame = Some NaN"
    by (simp add: collapsedFrame_def liveKneeAngle_frameOf calculateAngle_values)
  moreover have "squatCounter b2 = 1" "showingLastRep (displayAngles b2)"
    "disp_minKneeAngle (displayAngles b2) = NaN"
    by (simp_all add: f s1)
  ultimately show ?thesis
    by (simp add: run)
qed

end
